theory Spec2Isabelle
  imports Main
begin

section \<open>JavaScript values\<close>

text \<open>
  The middleware of \<^verbatim>\<open>src/index.js\<close> handles untyped JavaScript values. An object is an
  association list with distinct keys, in the order the properties were created; its
  prototype is \<^verbatim>\<open>Object.prototype\<close>. Numbers are integers (status codes). \<open>JFun n\<close> is a
  function, or another object of the host, known by its name \<open>n\<close>: what it does when called
  and what its properties are is given by the collaborators below. Strings are lists of
  characters; what the code does with text outside ASCII is left to the collaborators too.
\<close>

datatype jsval =
    JUndef
  | JNull
  | JBool bool
  | JNum int
  | JStr string
  | JObj "(string \<times> jsval) list"
  | JArr "jsval list"
  | JFun string

text \<open>What \<^verbatim>\<open>if (v)\<close>, \<^verbatim>\<open>!v\<close>, \<^verbatim>\<open>v || w\<close> and \<^verbatim>\<open>v && w\<close> test.\<close>

fun truthy :: "jsval \<Rightarrow> bool" where
  "truthy JUndef = False"
| "truthy JNull = False"
| "truthy (JBool b) = b"
| "truthy (JNum n) = (n \<noteq> 0)"
| "truthy (JStr s) = (s \<noteq> [])"
| "truthy (JObj kvs) = True"
| "truthy (JArr vs) = True"
| "truthy (JFun n) = True"

text \<open>\<^verbatim>\<open>a || b\<close> on values.\<close>

definition js_or :: "jsval \<Rightarrow> jsval \<Rightarrow> jsval" where
  "js_or a b = (if truthy a then a else b)"

text \<open>
  A thrown value, as the \<^verbatim>\<open>catch\<close> block of \<^verbatim>\<open>install\<close> can see it: \<open>Fault m s\<close> is any
  thrown value other than \<^verbatim>\<open>null\<close> and \<^verbatim>\<open>undefined\<close>, whose \<^verbatim>\<open>message\<close> property reads
  \<open>m\<close> and whose \<^verbatim>\<open>statusCode\<close> property reads \<open>s\<close> (\<open>JUndef\<close> when it has none);
  \<open>Nullish\<close> is a thrown \<^verbatim>\<open>null\<close> or \<^verbatim>\<open>undefined\<close>, on which a property read faults.
\<close>

datatype thrown = Fault jsval jsval | Nullish

text \<open>
  Modelled from the spec: \<^verbatim>\<open>errors.js\<close> is missing. \<^verbatim>\<open>new ValidationError(message, statusCode)\<close>
  is a fault carrying the given message and status code.
\<close>

definition ValidationError :: "jsval \<Rightarrow> jsval \<Rightarrow> thrown" where
  "ValidationError message statusCode = Fault message statusCode"

text \<open>The places where the engine itself raises a \<^verbatim>\<open>TypeError\<close>.\<close>

datatype site =
    ReadProperty jsval string
  | WriteProperty jsval string
  | NotIterable jsval
  | NotCallable jsval
  | ClassWithoutNew

text \<open>Property write \<^verbatim>\<open>o[k] = v\<close> on an object: in place if the key exists, appended otherwise.\<close>

fun setKey :: "string \<Rightarrow> jsval \<Rightarrow> (string \<times> jsval) list \<Rightarrow> (string \<times> jsval) list" where
  "setKey k v [] = [(k, v)]"
| "setKey k v (p # ps) = (if fst p = k then (k, v) # ps else p # setKey k v ps)"

text \<open>The properties every object inherits from \<^verbatim>\<open>Object.prototype\<close>.\<close>

definition object_prototype_names :: "string list" where
  "object_prototype_names =
     [''constructor'', ''__proto__'', ''hasOwnProperty'', ''isPrototypeOf'',
      ''propertyIsEnumerable'', ''toLocaleString'', ''toString'', ''valueOf'',
      ''__defineGetter__'', ''__defineSetter__'', ''__lookupGetter__'', ''__lookupSetter__'']"

definition inherited :: "string \<Rightarrow> jsval" where
  "inherited k =
     (if k \<in> set object_prototype_names then JFun (''Object.prototype.'' @ k) else JUndef)"

text \<open>\<^verbatim>\<open>o[k]\<close> on an object: the own property, else the inherited one, else \<^verbatim>\<open>undefined\<close>.\<close>

definition lookupKey :: "(string \<times> jsval) list \<Rightarrow> string \<Rightarrow> jsval" where
  "lookupKey kvs k = (case map_of kvs k of None \<Rightarrow> inherited k | Some v \<Rightarrow> v)"

text \<open>
  The order of \<^verbatim>\<open>Object.keys\<close>: the keys that are array indices (canonical decimal numbers
  below \<^verbatim>\<open>2^32 - 1\<close>) first, in ascending order, then the others in creation order.
\<close>

definition is_digit :: "char \<Rightarrow> bool" where
  "is_digit c = (48 \<le> (of_char c :: nat) \<and> (of_char c :: nat) \<le> 57)"

definition index_value :: "string \<Rightarrow> nat" where
  "index_value k = foldl (\<lambda>n c. 10 * n + ((of_char c :: nat) - 48)) 0 k"

definition is_index :: "string \<Rightarrow> bool" where
  "is_index k =
     (k \<noteq> [] \<and> list_all is_digit k \<and> (k = ''0'' \<or> hd k \<noteq> CHR ''0'')
      \<and> length k \<le> 10 \<and> index_value k \<le> 4294967294)"

definition own_keys :: "(string \<times> jsval) list \<Rightarrow> string list" where
  "own_keys kvs =
     sort_key index_value (filter is_index (map fst kvs))
     @ filter (\<lambda>k. \<not> is_index k) (map fst kvs)"

text \<open>ASCII text, and \<^verbatim>\<open>String.prototype.toLowerCase\<close> on it.\<close>

definition ascii :: "string \<Rightarrow> bool" where
  "ascii s = list_all (\<lambda>c. (of_char c :: nat) < 128) s"

definition lower_char :: "char \<Rightarrow> char" where
  "lower_char c =
     (case map_of (zip ''ABCDEFGHIJKLMNOPQRSTUVWXYZ'' ''abcdefghijklmnopqrstuvwxyz'') c of
        None \<Rightarrow> c
      | Some d \<Rightarrow> d)"

section \<open>The instance, the event and the collaborators\<close>

record request =
  r_body :: jsval
  r_query :: jsval
  r_headers :: "(string \<times> jsval) list"
  r_params :: jsval

text \<open>
  The event of an invocation, with the properties \<^verbatim>\<open>index.js\<close> reads or writes.
  \<open>headers\<close> is \<open>None\<close> for \<^verbatim>\<open>null\<close> or \<^verbatim>\<open>undefined\<close>; \<open>queryStringParams\<close> is the property
  that line 79 creates.
\<close>

record event =
  body :: jsval
  httpMethod :: string
  path :: string
  pathParameters :: jsval
  queryStringParameters :: jsval
  headers :: "(string \<times> jsval) list option"
  requestContext :: jsval
  queryStringParams :: jsval

text \<open>
  What \<^verbatim>\<open>this.event\<close> refers to: nothing yet, the event of the run (line 41 makes it the
  same object), or some other object that a collaborator stored there.
\<close>

datatype event_ref = Unset | Same | Other event

text \<open>The options object given to the constructor.\<close>

record params =
  p_apiSpec :: jsval
  p_contentType :: jsval
  p_validateSpec :: jsval
  p_validateRequests :: jsval
  p_validateResponses :: jsval
  p_requestBodyTransformer :: jsval
  p_requestPathTransformer :: jsval
  p_requestQueryTransformer :: jsval
  p_responseSuccessTransformer :: jsval
  p_responseErrorTransformer :: jsval
  p_removeAdditionalRequestProps :: jsval
  p_removeAdditionalResponseProps :: jsval
  p_roleAuthorizerKey :: jsval
  p_filterByRole :: jsval
  p_defaultRoleName :: jsval
  p_AJVoptions :: jsval

text \<open>The fields of an \<^verbatim>\<open>OpenApiValidator\<close> instance.\<close>

record OpenApiValidator =
  apiSpec :: jsval
  contentType :: jsval
  validateSpec :: jsval
  validateRequests :: jsval
  validateResponses :: jsval
  requestBodyTransformer :: jsval
  requestPathTransformer :: jsval
  requestQueryTransformer :: jsval
  responseSuccessTransformer :: jsval
  responseErrorTransformer :: jsval
  removeAdditionalRequestProps :: jsval
  removeAdditionalResponseProps :: jsval
  roleAuthorizerKey :: jsval
  filterByRole :: jsval
  defaultRoleName :: jsval
  AJVoptions :: jsval
  config :: jsval
  lambdaBody :: jsval
  this_event :: event_ref

text \<open>
  Code that \<^verbatim>\<open>index.js\<close> calls but does not contain (the wrapped handler, the transformers,
  the two validators) may fault, and may write to the objects the run holds before it
  returns: the instance, the event, and the three values \<^verbatim>\<open>body\<close>, \<^verbatim>\<open>pathParameters\<close> and
  \<^verbatim>\<open>queryStringParameters\<close> that lines 44 to 50 read from the event. It is a function
  from their contents to a result and their new contents.
\<close>

type_synonym world = "OpenApiValidator \<times> event \<times> (jsval \<times> jsval \<times> jsval)"

type_synonym 'a hook = "world \<Rightarrow> (thrown + 'a) \<times> world"

text \<open>
  The collaborators are parameters of the model:
  \<^item> \<open>isJson\<close> of the missing \<^verbatim>\<open>utils.js\<close>, \<^verbatim>\<open>JSON.parse\<close> and \<^verbatim>\<open>JSON.stringify\<close>;
  \<^item> \<open>regexp\<close>: \<^verbatim>\<open>RegExp(source)\<close>, the message of its \<^verbatim>\<open>SyntaxError\<close> or its \<^verbatim>\<open>test\<close>;
  \<^item> the conversions of the engine where the model does not do them itself (values other
    than primitives to numbers and to strings, lower-casing of text outside ASCII,
    property reads, writes and key lists of values that are not plain objects, iteration
    of values that are not arrays), and the messages of its \<^verbatim>\<open>TypeError\<close>s;
  \<^item> \<open>stringToPath\<close> of lodash, which splits the path given to \<^verbatim>\<open>get\<close>;
  \<^item> \<open>callFunction\<close>: the call of a function value, with its arguments, as a method of the
    instance;
  \<^item> \<open>requestValidate\<close> and \<open>responseValidate\<close>: construction of a validator of the
    missing \<^verbatim>\<open>openApiRequestValidator.js\<close> or \<^verbatim>\<open>openApiResponseValidator.js\<close> from the API
    spec, the AJV options, the operation (and the role), followed by its \<^verbatim>\<open>validate\<close>.
    Both work in place: the result is the request, or the response, after validation.
\<close>

record env =
  isJson :: "jsval \<Rightarrow> bool"
  parse :: "jsval \<Rightarrow> thrown + jsval"
  stringify :: "jsval \<Rightarrow> jsval"
  regexp :: "string \<Rightarrow> string + (string \<Rightarrow> bool)"
  toNumberOther :: "jsval \<Rightarrow> int option"
  toStringOther :: "jsval \<Rightarrow> string"
  toLowerCaseOther :: "string \<Rightarrow> string"
  propOther :: "jsval \<Rightarrow> string \<Rightarrow> jsval"
  setPropOther :: "jsval \<Rightarrow> string \<Rightarrow> jsval \<Rightarrow> thrown + jsval"
  hasOwnOther :: "jsval \<Rightarrow> string \<Rightarrow> thrown + bool"
  keysOther :: "jsval \<Rightarrow> string list"
  iterateOther :: "jsval \<Rightarrow> thrown + jsval list"
  errorMessage :: "site \<Rightarrow> jsval"
  stringToPath :: "string \<Rightarrow> string list"
  callFunction :: "string \<Rightarrow> jsval list \<Rightarrow> jsval hook"
  requestValidate ::
    "jsval \<Rightarrow> jsval \<Rightarrow> jsval \<Rightarrow> string \<Rightarrow> request \<Rightarrow> request hook"
  responseValidate ::
    "jsval \<Rightarrow> jsval \<Rightarrow> jsval \<Rightarrow> jsval \<Rightarrow> string \<Rightarrow> jsval \<Rightarrow> jsval
       \<Rightarrow> jsval hook"

text \<open>A \<^verbatim>\<open>TypeError\<close> raised by the engine: it has a message and no status code.\<close>

definition TypeError :: "env \<Rightarrow> site \<Rightarrow> thrown" where
  "TypeError E w = Fault (errorMessage E w) JUndef"

text \<open>Property read \<^verbatim>\<open>v[k]\<close>: it faults on \<^verbatim>\<open>null\<close> and \<^verbatim>\<open>undefined\<close>.\<close>

definition getProp :: "env \<Rightarrow> jsval \<Rightarrow> string \<Rightarrow> thrown + jsval" where
  "getProp E v k =
     (case v of
        JUndef \<Rightarrow> Inl (TypeError E (ReadProperty v k))
      | JNull \<Rightarrow> Inl (TypeError E (ReadProperty v k))
      | JObj kvs \<Rightarrow> Inr (lookupKey kvs k)
      | _ \<Rightarrow> Inr (propOther E v k))"

text \<open>
  Property write \<^verbatim>\<open>v[k] = x\<close> in the strict-mode class body: it faults on \<^verbatim>\<open>null\<close>,
  \<^verbatim>\<open>undefined\<close> and the primitives.
\<close>

definition setProp :: "env \<Rightarrow> jsval \<Rightarrow> string \<Rightarrow> jsval \<Rightarrow> thrown + jsval" where
  "setProp E v k x =
     (case v of
        JObj kvs \<Rightarrow> Inr (JObj (setKey k x kvs))
      | JArr vs \<Rightarrow> setPropOther E v k x
      | JFun n \<Rightarrow> setPropOther E v k x
      | _ \<Rightarrow> Inl (TypeError E (WriteProperty v k)))"

text \<open>\<^verbatim>\<open>Object.keys(v)\<close> of a value that is neither \<^verbatim>\<open>null\<close> nor \<^verbatim>\<open>undefined\<close>.\<close>

definition objectKeys :: "env \<Rightarrow> jsval \<Rightarrow> string list" where
  "objectKeys E v = (case v of JObj kvs \<Rightarrow> own_keys kvs | _ \<Rightarrow> keysOther E v)"

definition toLowerCase :: "env \<Rightarrow> string \<Rightarrow> string" where
  "toLowerCase E s = (if ascii s then map lower_char s else toLowerCaseOther E s)"

section \<open>The constructor\<close>

definition TYPE_JSON :: jsval where
  "TYPE_JSON = JStr ''application/json''"

text \<open>
  \<^verbatim>\<open>constructor(params, lambdaBody)\<close>: throws when the API spec is missing or not JSON,
  otherwise fills every field, each option with its \<^verbatim>\<open>||\<close> default.
\<close>

definition constructor :: "env \<Rightarrow> params \<Rightarrow> jsval \<Rightarrow> thrown + OpenApiValidator" where
  "constructor E ps lb =
     (if \<not> truthy (p_apiSpec ps) \<or> \<not> isJson E (p_apiSpec ps)
      then Inl (Fault (JStr ''API spec not found or invalid'') JUndef)
      else Inr \<lparr>
        apiSpec = p_apiSpec ps,
        contentType = js_or (p_contentType ps) TYPE_JSON,
        validateSpec = js_or (p_validateSpec ps) (JBool True),
        validateRequests = js_or (p_validateRequests ps) (JBool False),
        validateResponses = js_or (p_validateResponses ps) (JBool False),
        requestBodyTransformer = p_requestBodyTransformer ps,
        requestPathTransformer = p_requestPathTransformer ps,
        requestQueryTransformer = p_requestQueryTransformer ps,
        responseSuccessTransformer = p_responseSuccessTransformer ps,
        responseErrorTransformer = p_responseErrorTransformer ps,
        removeAdditionalRequestProps = js_or (p_removeAdditionalRequestProps ps) (JBool False),
        removeAdditionalResponseProps = js_or (p_removeAdditionalResponseProps ps) (JBool False),
        roleAuthorizerKey = js_or (p_roleAuthorizerKey ps) JNull,
        filterByRole = js_or (p_filterByRole ps) (JBool False),
        defaultRoleName = js_or (p_defaultRoleName ps) (JStr ''default''),
        AJVoptions = js_or (p_AJVoptions ps) (JObj []),
        config = JObj [],
        lambdaBody = lb,
        this_event = Unset \<rparr>)"

section \<open>The installed handler\<close>

text \<open>
  What one run of the installed handler does besides computing its result: it calls the
  wrapped handler and the two validators. The log records each of these calls with its
  arguments.
\<close>

datatype call =
    HandlerCall event
  | RequestValidateCall string request
  | ResponseValidateCall string jsval jsval jsval

text \<open>
  The state a run works on: the long-lived instance (\<^verbatim>\<open>this\<close>), the event object, the
  values of \<^verbatim>\<open>body\<close>, \<^verbatim>\<open>pathParameters\<close> and \<^verbatim>\<open>queryStringParameters\<close> read on lines 44 to
  50, and the log of calls.
\<close>

record state =
  st_this :: OpenApiValidator
  st_ev :: event
  st_locals :: "jsval \<times> jsval \<times> jsval"
  st_calls :: "call list"

type_synonym 'a comp = "state \<Rightarrow> (thrown + 'a) \<times> state"

definition ret :: "'a \<Rightarrow> 'a comp" where
  "ret a s = (Inr a, s)"

definition throw :: "thrown \<Rightarrow> 'a comp" where
  "throw t s = (Inl t, s)"

definition lift :: "thrown + 'a \<Rightarrow> 'a comp" where
  "lift x s = (x, s)"

definition bnd :: "'a comp \<Rightarrow> ('a \<Rightarrow> 'b comp) \<Rightarrow> 'b comp" where
  "bnd m f s = (case m s of (Inl t, s') \<Rightarrow> (Inl t, s') | (Inr a, s') \<Rightarrow> f a s')"

text \<open>A call of code outside \<^verbatim>\<open>index.js\<close>; the log is not its to change.\<close>

definition run_hook :: "'a hook \<Rightarrow> 'a comp" where
  "run_hook h s =
     (case h (st_this s, st_ev s, st_locals s) of
        (r, (t, e, l)) \<Rightarrow> (r, s\<lparr>st_this := t, st_ev := e, st_locals := l\<rparr>))"

text \<open>
  The call \<^verbatim>\<open>this.f(args)\<close> of a field of the instance: a \<^verbatim>\<open>TypeError\<close> unless the field
  holds a function.
\<close>

definition call_method :: "env \<Rightarrow> jsval \<Rightarrow> jsval list \<Rightarrow> jsval comp" where
  "call_method E f args =
     (case f of
        JFun n \<Rightarrow> run_hook (callFunction E n args)
      | _ \<Rightarrow> throw (TypeError E (NotCallable f)))"

text \<open>
  A write to a property \<open>k\<close> of the object \<^verbatim>\<open>this.event\<close> refers to; a \<^verbatim>\<open>TypeError\<close> when it
  refers to nothing.
\<close>

definition write_this_event :: "env \<Rightarrow> string \<Rightarrow> (event \<Rightarrow> event) \<Rightarrow> unit comp" where
  "write_this_event E k f s =
     (case this_event (st_this s) of
        Same \<Rightarrow> (Inr (), s\<lparr>st_ev := f (st_ev s)\<rparr>)
      | Other e \<Rightarrow> (Inr (), s\<lparr>st_this := (st_this s)\<lparr>this_event := Other (f e)\<rparr>\<rparr>)
      | Unset \<Rightarrow> (Inl (TypeError E (WriteProperty JUndef k)), s))"

definition log_call :: "call \<Rightarrow> unit comp" where
  "log_call c s = (Inr (), s\<lparr>st_calls := st_calls s @ [c]\<rparr>)"

text \<open>Lines 38 to 41: the body is parsed when it is JSON text, then \<^verbatim>\<open>this.event = event\<close>.\<close>

definition parseBody :: "env \<Rightarrow> unit comp" where
  "parseBody E s =
     (if isJson E (body (st_ev s))
      then (case parse E (body (st_ev s)) of
              Inl t \<Rightarrow> (Inl t, s)
            | Inr v \<Rightarrow> (Inr (), s\<lparr>st_ev := (st_ev s)\<lparr>body := v\<rparr>,
                                    st_this := (st_this s)\<lparr>this_event := Same\<rparr>\<rparr>))
      else (Inr (), s\<lparr>st_this := (st_this s)\<lparr>this_event := Same\<rparr>\<rparr>))"

subsection \<open>Route resolution (lines 53 to 72)\<close>

text \<open>
  \<^verbatim>\<open>key.replace(/{[^}]*}/g, '([a-zA-z0-9-\\s\\+]|%20)+')\<close>: every leftmost \<^verbatim>\<open>{\<close> that has a
  \<^verbatim>\<open>}\<close> after it is replaced, up to the first such \<^verbatim>\<open>}\<close>, by the group; a \<^verbatim>\<open>{\<close> with no
  \<^verbatim>\<open>}\<close> after it stays. The group, as the string literal denotes it, is
  \<^verbatim>\<open>([a-zA-z0-9-\s\+]|%20)+\<close> (\<open>CHR 0x5C\<close> is the backslash).
\<close>

definition var_group :: string where
  "var_group = ''([a-zA-z0-9-'' @ [CHR 0x5C] @ ''s'' @ [CHR 0x5C] @ ''+]|%20)+''"

function replace_vars :: "string \<Rightarrow> string" where
  "replace_vars [] = []"
| "replace_vars (c # cs) =
     (if c = CHR ''{'' \<and> CHR ''}'' \<in> set cs
      then var_group @ replace_vars (drop 1 (dropWhile (\<lambda>d. d \<noteq> CHR ''}'') cs))
      else c # replace_vars cs)"
  by pat_completeness auto
termination
proof (relation "measure length")
  fix c :: char and cs :: string
  have "length (dropWhile (\<lambda>d. d \<noteq> CHR ''}'') cs) \<le> length cs"
    by (rule length_dropWhile_le)
  then show "(drop 1 (dropWhile (\<lambda>d. d \<noteq> CHR ''}'') cs), c # cs) \<in> measure length"
    by simp
qed simp_all

text \<open>The source of the pattern on line 61.\<close>

definition route_regex :: "string \<Rightarrow> string" where
  "route_regex key = replace_vars key @ ''$''"

subsection \<open>The patterns of plain templates\<close>

text \<open>
  What \<^verbatim>\<open>RegExp(source).test(path)\<close> computes is spelled out for the sources that plain
  templates compile to, on ASCII text: a sequence of characters that stand for themselves
  (none of \<^verbatim>\<open>^ $ \ . * + ? ( ) [ ] { } |\<close>), of copies of the group, and a final \<^verbatim>\<open>$\<close>.
  Every other source is left to the engine.
\<close>

definition plain_char :: "char \<Rightarrow> bool" where
  "plain_char c = (c \<notin> set (''^$.*+?()[]{}|'' @ [CHR 0x5C]))"

text \<open>
  The characters of the class \<^verbatim>\<open>[a-zA-z0-9-\s\+]\<close> among ASCII: the range \<^verbatim>\<open>a-z\<close>; the
  range \<^verbatim>\<open>A-z\<close>, which besides the letters spans the six characters between \<^verbatim>\<open>Z\<close> and
  \<^verbatim>\<open>a\<close> (codes \<open>0x5B\<close> to \<open>0x60\<close>: the two brackets, the backslash, the caret, the
  underscore and the backquote); the range \<^verbatim>\<open>0-9\<close>; the hyphen; the white space of \<^verbatim>\<open>\s\<close>
  (tab, line feed, vertical tab, form feed, carriage return, space); and \<^verbatim>\<open>+\<close>.
\<close>

definition class_chars :: string where
  "class_chars =
     ''abcdefghijklmnopqrstuvwxyz''
     @ ''ABCDEFGHIJKLMNOPQRSTUVWXYZ''
     @ [CHR 0x5B, CHR 0x5C, CHR 0x5D, CHR 0x5E, CHR 0x5F, CHR 0x60]
     @ ''0123456789''
     @ ''-''
     @ [CHR 0x09, CHR 0x0A, CHR 0x0B, CHR 0x0C, CHR 0x0D, CHR 0x20]
     @ ''+''"

definition class_char :: "char \<Rightarrow> bool" where
  "class_char c = (c \<in> set class_chars)"

datatype tok = TLit char | TVar | TEnd

lemma length_var_group: "length var_group = 23"
  by (simp add: var_group_def)

function tokenize :: "string \<Rightarrow> tok list option" where
  "tokenize [] = Some []"
| "tokenize (c # cs) =
     (if take (length var_group) (c # cs) = var_group
      then map_option (Cons TVar) (tokenize (drop (length var_group) (c # cs)))
      else if c = CHR ''$'' \<and> cs = [] then Some [TEnd]
      else if plain_char c then map_option (Cons (TLit c)) (tokenize cs)
      else None)"
  by pat_completeness auto
termination
  by (relation "measure length") (auto simp: length_var_group)

text \<open>One repetition of the group: a character of the class, or \<^verbatim>\<open>%20\<close>.\<close>

definition unit_step :: "string \<Rightarrow> string option" where
  "unit_step inp =
     (case inp of
        [] \<Rightarrow> None
      | c # cs \<Rightarrow> if class_char c then Some cs
                  else if take 3 inp = ''%20'' then Some (drop 3 inp) else None)"

lemma unit_step_shorter: "unit_step inp = Some r \<Longrightarrow> length r < length inp"
  by (cases inp) (auto simp: unit_step_def split: if_splits)

text \<open>The inputs left after one, two, ... repetitions of the group.\<close>

function var_ends :: "string \<Rightarrow> string list" where
  "var_ends inp = (case unit_step inp of None \<Rightarrow> [] | Some r \<Rightarrow> r # var_ends r)"
  by pat_completeness auto
termination
  by (relation "measure length") (auto simp: unit_step_shorter)

declare var_ends.simps [simp del]

fun match_toks :: "tok list \<Rightarrow> string \<Rightarrow> bool" where
  "match_toks [] inp = True"
| "match_toks (TEnd # ts) inp = (inp = [] \<and> match_toks ts inp)"
| "match_toks (TLit c # ts) inp = (case inp of [] \<Rightarrow> False | d # ds \<Rightarrow> c = d \<and> match_toks ts ds)"
| "match_toks (TVar # ts) inp = list_ex (match_toks ts) (var_ends inp)"

fun suffixes_of :: "string \<Rightarrow> string list" where
  "suffixes_of [] = [[]]"
| "suffixes_of (c # cs) = (c # cs) # suffixes_of cs"

text \<open>
  \<^verbatim>\<open>RegExp(source)\<close>, which may throw a \<^verbatim>\<open>SyntaxError\<close>, then \<^verbatim>\<open>regex.test(path)\<close>: the
  pattern may start anywhere in the path.
\<close>

definition regex_test :: "env \<Rightarrow> string \<Rightarrow> string \<Rightarrow> thrown + bool" where
  "regex_test E source pth =
     (case (if ascii source \<and> ascii pth then tokenize source else None) of
        Some toks \<Rightarrow> Inr (list_ex (match_toks toks) (suffixes_of pth))
      | None \<Rightarrow>
          (case regexp E source of
             Inl message \<Rightarrow> Inl (Fault (JStr message) JUndef)
           | Inr test \<Rightarrow> Inr (test pth)))"

text \<open>
  The callback of \<^verbatim>\<open>find\<close> on lines 60 to 63:
  \<^verbatim>\<open>regex.test(path) && paths[key][httpMethodLower]\<close>.
\<close>

definition key_matches :: "env \<Rightarrow> jsval \<Rightarrow> string \<Rightarrow> string \<Rightarrow> string \<Rightarrow> thrown + bool" where
  "key_matches E paths pth verb key =
     (case regex_test E (route_regex key) pth of
        Inl t \<Rightarrow> Inl t
      | Inr False \<Rightarrow> Inr False
      | Inr True \<Rightarrow>
          (case getProp E paths key of
             Inl t \<Rightarrow> Inl t
           | Inr pk \<Rightarrow> (case getProp E pk verb of Inl t \<Rightarrow> Inl t | Inr op \<Rightarrow> Inr (truthy op))))"

text \<open>lodash \<^verbatim>\<open>find\<close>: the first key, in the order of the array, on which the callback is truthy.\<close>

fun find_key :: "env \<Rightarrow> jsval \<Rightarrow> string \<Rightarrow> string \<Rightarrow> string list \<Rightarrow> thrown + string option" where
  "find_key E paths pth verb [] = Inr None"
| "find_key E paths pth verb (key # keys) =
     (case key_matches E paths pth verb key of
        Inl t \<Rightarrow> Inl t
      | Inr True \<Rightarrow> Inr (Some key)
      | Inr False \<Rightarrow> find_key E paths pth verb keys)"

definition path_not_found :: "string \<Rightarrow> string \<Rightarrow> thrown" where
  "path_not_found pth verb =
     ValidationError
       (JStr (''The path '' @ pth @ '' could not be found with http method '' @ verb
              @ '' in the API spec''))
       (JNum 400)"

text \<open>
  The operation for the path and verb: the exact key first, then the first matching
  template. \<^verbatim>\<open>if (foundKey)\<close> is a truthiness test, so a found empty key counts as none.
\<close>

definition resolve :: "env \<Rightarrow> jsval \<Rightarrow> string \<Rightarrow> string \<Rightarrow> thrown + jsval" where
  "resolve E paths pth verb =
     (case getProp E paths pth of
        Inl t \<Rightarrow> Inl t
      | Inr pp \<Rightarrow>
          (case (if truthy pp then getProp E pp verb else Inr pp) of
             Inl t \<Rightarrow> Inl t
           | Inr op \<Rightarrow>
               if truthy op then Inr op
               else (case find_key E paths pth verb (objectKeys E paths) of
                       Inl t \<Rightarrow> Inl t
                     | Inr None \<Rightarrow> Inl (path_not_found pth verb)
                     | Inr (Some foundKey) \<Rightarrow>
                         if foundKey \<noteq> []
                         then (case getProp E paths foundKey of
                                 Inl t \<Rightarrow> Inl t
                               | Inr pk \<Rightarrow> getProp E pk verb)
                         else Inl (path_not_found pth verb))))"

definition resolveRoute :: "env \<Rightarrow> jsval \<Rightarrow> string \<Rightarrow> string \<Rightarrow> unit comp" where
  "resolveRoute E paths pth verb s =
     (if truthy (validateRequests (st_this s)) \<or> truthy (validateResponses (st_this s))
      then (case resolve E paths pth verb of
              Inl t \<Rightarrow> (Inl t, s)
            | Inr op \<Rightarrow> (Inr (), s\<lparr>st_this := (st_this s)\<lparr>config := op\<rparr>\<rparr>))
      else (Inr (), s))"

subsection \<open>Request validation (lines 74 to 80 and 164 to 197)\<close>

text \<open>
  The first \<^verbatim>\<open>forEach\<close> (lines 177 to 179), over the keys \<^verbatim>\<open>Object.keys\<close> listed before
  the loop: each writes the header's current value under the lower-cased name, into the
  same object.
\<close>

fun lower_headers ::
  "env \<Rightarrow> string list \<Rightarrow> (string \<times> jsval) list \<Rightarrow> (string \<times> jsval) list" where
  "lower_headers E [] h = h"
| "lower_headers E (k # ks) h =
     lower_headers E ks (setKey (toLowerCase E k) (lookupKey h k) h)"

text \<open>
  The second \<^verbatim>\<open>forEach\<close> (lines 191 to 193): for each listed key whose lower-cased name
  holds a truthy value, that value is written under the key itself.
\<close>

fun restore_headers ::
  "env \<Rightarrow> string list \<Rightarrow> (string \<times> jsval) list \<Rightarrow> (string \<times> jsval) list" where
  "restore_headers E [] h = h"
| "restore_headers E (k # ks) h =
     restore_headers E ks
       (if truthy (lookupKey h (toLowerCase E k))
        then setKey k (lookupKey h (toLowerCase E k)) h else h)"

record filtered =
  f_body :: jsval
  f_queryStringParams :: jsval
  f_headers :: "(string \<times> jsval) list"
  f_pathParameters :: jsval

text \<open>
  The request handed to the validator (lines 168 to 179). \<^verbatim>\<open>event.headers || {}\<close> is the
  event's own headers object when there is one, so the lower-cased names are written into
  the event.
\<close>

definition build_request :: "env \<Rightarrow> event \<Rightarrow> request" where
  "build_request E ev =
     \<lparr> r_body = js_or (body ev) (JObj []),
       r_query = js_or (queryStringParameters ev) (JObj []),
       r_headers = (case headers ev of None \<Rightarrow> [] | Some h \<Rightarrow> lower_headers E (own_keys h) h),
       r_params = js_or (pathParameters ev) (JObj []) \<rparr>"

definition alias_headers :: "env \<Rightarrow> event \<Rightarrow> event" where
  "alias_headers E ev =
     ev\<lparr>headers := (case headers ev of None \<Rightarrow> None
                      | Some h \<Rightarrow> Some (lower_headers E (own_keys h) h))\<rparr>"

text \<open>
  The object that was passed as \<^verbatim>\<open>event\<close> on line 76, after the validator has run: the
  event of the run, or the other object \<^verbatim>\<open>this.event\<close> referred to (with the contents it has
  now if \<^verbatim>\<open>this.event\<close> still holds one).
\<close>

definition passed_event :: "event_ref \<Rightarrow> event \<Rightarrow> state \<Rightarrow> event" where
  "passed_event ref before s =
     (case ref of
        Same \<Rightarrow> st_ev s
      | _ \<Rightarrow> (case this_event (st_this s) of Other e \<Rightarrow> e | _ \<Rightarrow> before))"

text \<open>
  \<^verbatim>\<open>this._validateRequests(path, this.event, this.config, this.AJVoptions)\<close>. The result is
  \<open>None\<close> for \<^verbatim>\<open>undefined\<close>, when there is no operation. (No run reaches line 76 with
  \<^verbatim>\<open>this.event\<close> undefined; the read of its body on line 169 would fault.)
\<close>

definition validateRequests_impl :: "env \<Rightarrow> string \<Rightarrow> filtered option comp" where
  "validateRequests_impl E pth s =
     (let schema = config (st_this s); ref = this_event (st_this s)
      in if truthy schema
         then (case setProp E (AJVoptions (st_this s)) ''removeAdditional''
                      (removeAdditionalRequestProps (st_this s)) of
                 Inl t \<Rightarrow> (Inl t, s)
               | Inr opts \<Rightarrow>
                   (case (case ref of Unset \<Rightarrow> None | Same \<Rightarrow> Some (st_ev s) | Other e \<Rightarrow> Some e) of
                      None \<Rightarrow>
                        (Inl (TypeError E (ReadProperty JUndef ''body'')),
                         s\<lparr>st_this := (st_this s)\<lparr>AJVoptions := opts\<rparr>\<rparr>)
                    | Some ev \<Rightarrow>
                        (let s1 = s\<lparr>st_this := (st_this s)\<lparr>AJVoptions := opts\<rparr>\<rparr>;
                             req = build_request E ev;
                             s2 = snd (write_this_event E ''headers'' (alias_headers E) s1);
                             s3 = s2\<lparr>st_calls := st_calls s2 @ [RequestValidateCall pth req]\<rparr>
                         in case run_hook (requestValidate E (apiSpec (st_this s3)) opts schema
                                             pth req) s3 of
                              (Inl t, s4) \<Rightarrow> (Inl t, s4)
                            | (Inr req', s4) \<Rightarrow>
                                (Inr (Some \<lparr>
                                   f_body = r_body req',
                                   f_queryStringParams = r_query req',
                                   f_headers =
                                     restore_headers E
                                       (case headers (passed_event ref (alias_headers E ev) s4) of
                                          None \<Rightarrow> []
                                        | Some h \<Rightarrow> own_keys h)
                                       (r_headers req'),
                                   f_pathParameters = r_params req' \<rparr>), s4))))
         else (Inr None, s))"

text \<open>
  \<^verbatim>\<open>Object.assign(this.event, filteredRequest)\<close>: a \<^verbatim>\<open>TypeError\<close> when \<^verbatim>\<open>this.event\<close> is
  \<^verbatim>\<open>undefined\<close>; nothing is copied when the second argument is.
\<close>

definition assign_filtered :: "filtered option \<Rightarrow> event \<Rightarrow> event" where
  "assign_filtered fo ev =
     (case fo of
        None \<Rightarrow> ev
      | Some f \<Rightarrow> ev\<lparr>body := f_body f, queryStringParams := f_queryStringParams f,
                       headers := Some (f_headers f), pathParameters := f_pathParameters f\<rparr>)"

definition validateRequests_stage :: "env \<Rightarrow> string \<Rightarrow> unit comp" where
  "validateRequests_stage E pth s =
     (if truthy (validateRequests (st_this s))
      then bnd (validateRequests_impl E pth)
             (\<lambda>fo. write_this_event E ''body'' (assign_filtered fo)) s
      else (Inr (), s))"

subsection \<open>Request transforms (lines 81 to 93)\<close>

text \<open>
  Each transformer that is set is called as a method of the instance, on the value read
  on lines 44 to 50 (or \<^verbatim>\<open>{}\<close>), and its result is stored in the event.
\<close>

definition transformBody :: "env \<Rightarrow> unit comp" where
  "transformBody E s =
     (if truthy (requestBodyTransformer (st_this s))
      then bnd (call_method E (requestBodyTransformer (st_this s))
                  [js_or (fst (st_locals s)) (JObj [])])
             (\<lambda>v. write_this_event E ''body'' (\<lambda>e. e\<lparr>body := v\<rparr>)) s
      else (Inr (), s))"

definition transformPath :: "env \<Rightarrow> unit comp" where
  "transformPath E s =
     (if truthy (requestPathTransformer (st_this s))
      then bnd (call_method E (requestPathTransformer (st_this s))
                  [js_or (fst (snd (st_locals s))) (JObj [])])
             (\<lambda>v. write_this_event E ''pathParameters'' (\<lambda>e. e\<lparr>pathParameters := v\<rparr>)) s
      else (Inr (), s))"

definition transformQuery :: "env \<Rightarrow> unit comp" where
  "transformQuery E s =
     (if truthy (requestQueryTransformer (st_this s))
      then bnd (call_method E (requestQueryTransformer (st_this s))
                  [js_or (snd (snd (st_locals s))) (JObj [])])
             (\<lambda>v. write_this_event E ''queryStringParameters''
                     (\<lambda>e. e\<lparr>queryStringParameters := v\<rparr>)) s
      else (Inr (), s))"

definition transformRequests :: "env \<Rightarrow> unit comp" where
  "transformRequests E = bnd (transformBody E) (\<lambda>_. bnd (transformPath E) (\<lambda>_. transformQuery E))"

subsection \<open>The wrapped handler and its outcome (lines 95 to 116)\<close>

text \<open>
  \<^verbatim>\<open>await this.lambdaBody(event, context, callback)\<close>: the handler is called as a method of
  the instance; the event is among the objects it sees, the context and the callback are
  not modelled. A rejected promise is a fault.
\<close>

definition invokeHandler :: "env \<Rightarrow> jsval comp" where
  "invokeHandler E s =
     call_method E (lambdaBody (st_this s)) []
       (s\<lparr>st_calls := st_calls s @ [HandlerCall (st_ev s)]\<rparr>)"

definition nth_or :: "jsval list \<Rightarrow> nat \<Rightarrow> jsval" where
  "nth_or vs i = (if i < length vs then vs ! i else JUndef)"

text \<open>
  \<^verbatim>\<open>let [ response, statusCode, message='' ] = lambdaResponse\<close>: the first three elements
  of what is iterated, \<^verbatim>\<open>undefined\<close> where there is none, and \<^verbatim>\<open>''\<close> for an \<^verbatim>\<open>undefined\<close>
  message.
\<close>

definition iterate :: "env \<Rightarrow> jsval \<Rightarrow> thrown + jsval list" where
  "iterate E v =
     (case v of
        JArr vs \<Rightarrow> Inr vs
      | JStr s \<Rightarrow> if ascii s then Inr (map (\<lambda>c. JStr [c]) s) else iterateOther E v
      | JFun n \<Rightarrow> iterateOther E v
      | _ \<Rightarrow> Inl (TypeError E (NotIterable v)))"

definition destructure :: "env \<Rightarrow> jsval \<Rightarrow> thrown + (jsval \<times> jsval \<times> jsval)" where
  "destructure E v =
     (case iterate E v of
        Inl t \<Rightarrow> Inl t
      | Inr vs \<Rightarrow> Inr (nth_or vs 0, nth_or vs 1,
                        if nth_or vs 2 = JUndef then JStr [] else nth_or vs 2))"

definition toNumber :: "env \<Rightarrow> jsval \<Rightarrow> int option" where
  "toNumber E v =
     (case v of
        JUndef \<Rightarrow> None
      | JNull \<Rightarrow> Some 0
      | JBool b \<Rightarrow> Some (if b then 1 else 0)
      | JNum n \<Rightarrow> Some n
      | _ \<Rightarrow> toNumberOther E v)"

text \<open>\<^verbatim>\<open>statusCode < 300\<close>; false when the status code is not a number.\<close>

definition lt300 :: "env \<Rightarrow> jsval \<Rightarrow> bool" where
  "lt300 E v = (case toNumber E v of None \<Rightarrow> False | Some n \<Rightarrow> n < 300)"

text \<open>\<^verbatim>\<open>_constructDefaultResponse(response, statusCode)\<close>, lines 210 to 216.\<close>

definition constructDefaultResponse :: "env \<Rightarrow> jsval \<Rightarrow> jsval \<Rightarrow> jsval" where
  "constructDefaultResponse E response statusCode =
     JObj [(''body'', if isJson E response then stringify E response else response),
           (''statusCode'', statusCode)]"

text \<open>Lines 100 to 111.\<close>

definition transformResponse :: "env \<Rightarrow> jsval \<Rightarrow> jsval \<Rightarrow> jsval \<Rightarrow> jsval comp" where
  "transformResponse E response statusCode message s =
     (if lt300 E statusCode
      then (if truthy (responseSuccessTransformer (st_this s))
            then call_method E (responseSuccessTransformer (st_this s)) [response, statusCode] s
            else (Inr (constructDefaultResponse E response statusCode), s))
      else (if truthy (responseErrorTransformer (st_this s))
            then call_method E (responseErrorTransformer (st_this s))
                   [response, statusCode, message] s
            else (Inl (ValidationError message statusCode), s)))"

text \<open>
  \<^verbatim>\<open>response.hasOwnProperty(k)\<close>: the inherited method, unless the response has a property
  of that name itself; strings and arrays own their indices and \<^verbatim>\<open>length\<close>.
\<close>

definition hasOwnProperty :: "env \<Rightarrow> jsval \<Rightarrow> string \<Rightarrow> thrown + bool" where
  "hasOwnProperty E v k =
     (case v of
        JUndef \<Rightarrow> Inl (TypeError E (ReadProperty v ''hasOwnProperty''))
      | JNull \<Rightarrow> Inl (TypeError E (ReadProperty v ''hasOwnProperty''))
      | JBool b \<Rightarrow> Inr False
      | JNum n \<Rightarrow> Inr False
      | JStr s \<Rightarrow> if ascii s then Inr (k = ''length'' \<or> (is_index k \<and> index_value k < length s))
                  else hasOwnOther E v k
      | JArr vs \<Rightarrow> Inr (k = ''length'' \<or> (is_index k \<and> index_value k < length vs))
      | JObj kvs \<Rightarrow> if map_of kvs ''hasOwnProperty'' = None then Inr (k \<in> set (map fst kvs))
                    else hasOwnOther E v k
      | JFun n \<Rightarrow> hasOwnOther E v k)"

text \<open>
  Modelled from the spec: \<^verbatim>\<open>errors.js\<close> is missing. Line 115 calls \<^verbatim>\<open>ValidationError\<close>
  without \<^verbatim>\<open>new\<close>; for a class that call raises a \<^verbatim>\<open>TypeError\<close>, a fault with no status
  code, which is what the spec's \<^verbatim>\<open>EnvelopeContractError\<close> (500) amounts to.
\<close>

definition EnvelopeContractError :: "env \<Rightarrow> thrown" where
  "EnvelopeContractError E = TypeError E ClassWithoutNew"

text \<open>Lines 113 to 116.\<close>

definition checkEnvelope :: "env \<Rightarrow> jsval \<Rightarrow> thrown + unit" where
  "checkEnvelope E response =
     (case hasOwnProperty E response ''body'' of
        Inl t \<Rightarrow> Inl t
      | Inr False \<Rightarrow> Inl (EnvelopeContractError E)
      | Inr True \<Rightarrow>
          (case hasOwnProperty E response ''statusCode'' of
             Inl t \<Rightarrow> Inl t
           | Inr False \<Rightarrow> Inl (EnvelopeContractError E)
           | Inr True \<Rightarrow> Inr ()))"

subsection \<open>Response filtering (lines 118 to 141 and 199 to 208)\<close>

text \<open>A property name made from a value, as a template literal or \<^verbatim>\<open>o[v]\<close> does.\<close>

definition keyOf :: "env \<Rightarrow> jsval \<Rightarrow> string" where
  "keyOf E v = (case v of JStr k \<Rightarrow> k | _ \<Rightarrow> toStringOther E v)"

text \<open>\<^verbatim>\<open>event[k]\<close>, for the properties of the event that are modelled.\<close>

definition eventProp :: "event \<Rightarrow> string \<Rightarrow> jsval" where
  "eventProp ev k =
     (if k = ''body'' then body ev
      else if k = ''httpMethod'' then JStr (httpMethod ev)
      else if k = ''path'' then JStr (path ev)
      else if k = ''pathParameters'' then pathParameters ev
      else if k = ''queryStringParameters'' then queryStringParameters ev
      else if k = ''headers'' then (case headers ev of None \<Rightarrow> JNull | Some h \<Rightarrow> JObj h)
      else if k = ''requestContext'' then requestContext ev
      else if k = ''queryStringParams'' then queryStringParams ev
      else inherited k)"

text \<open>
  lodash \<^verbatim>\<open>get(object, path, defaultValue)\<close> with a dotted path: the walk stops at \<^verbatim>\<open>null\<close>
  or \<^verbatim>\<open>undefined\<close>, and the default replaces an \<^verbatim>\<open>undefined\<close> result only.
\<close>

fun baseGet :: "env \<Rightarrow> jsval \<Rightarrow> string list \<Rightarrow> jsval" where
  "baseGet E v [] = v"
| "baseGet E v (k # ks) = (case getProp E v k of Inl t \<Rightarrow> JUndef | Inr w \<Rightarrow> baseGet E w ks)"

definition lodash_get :: "env \<Rightarrow> event \<Rightarrow> string \<Rightarrow> jsval \<Rightarrow> jsval" where
  "lodash_get E ev pathString defaultValue =
     (let result = (case stringToPath E pathString of
                      [] \<Rightarrow> JUndef
                    | k # ks \<Rightarrow> baseGet E (eventProp ev k) ks)
      in if result = JUndef then defaultValue else result)"

text \<open>
  The third argument on line 134,
  \<^verbatim>\<open>event.requestContext.authorizer.claims[this.defaultRoleName]\<close>, evaluated before
  \<^verbatim>\<open>get\<close> is called.
\<close>

definition default_role_claim :: "env \<Rightarrow> OpenApiValidator \<Rightarrow> event \<Rightarrow> thrown + jsval" where
  "default_role_claim E this ev =
     (case getProp E (requestContext ev) ''authorizer'' of
        Inl t \<Rightarrow> Inl t
      | Inr a \<Rightarrow>
          (case getProp E a ''claims'' of
             Inl t \<Rightarrow> Inl t
           | Inr c \<Rightarrow> getProp E c (keyOf E (defaultRoleName this))))"

text \<open>The role of line 134.\<close>

definition resolve_role :: "env \<Rightarrow> OpenApiValidator \<Rightarrow> event \<Rightarrow> thrown + jsval" where
  "resolve_role E this ev =
     (case default_role_claim E this ev of
        Inl t \<Rightarrow> Inl t
      | Inr d \<Rightarrow>
          Inr (lodash_get E ev
                 (''requestContext.authorizer.claims.'' @ keyOf E (roleAuthorizerKey this)) d))"

text \<open>
  \<^verbatim>\<open>this._validateResponses(path, response, this.config, statusCode, this.AJVoptions, role)\<close>.
  The default \<^verbatim>\<open>role = null\<close> also replaces an \<^verbatim>\<open>undefined\<close> argument.
\<close>

definition validateResponses_impl ::
  "env \<Rightarrow> string \<Rightarrow> jsval \<Rightarrow> jsval \<Rightarrow> jsval \<Rightarrow> jsval comp" where
  "validateResponses_impl E pth response statusCode role0 s =
     (let role = (if role0 = JUndef then JNull else role0); schema = config (st_this s)
      in if truthy schema
         then (case setProp E (AJVoptions (st_this s)) ''removeAdditional''
                      (removeAdditionalResponseProps (st_this s)) of
                 Inl t \<Rightarrow> (Inl t, s)
               | Inr opts \<Rightarrow>
                   run_hook (responseValidate E (apiSpec (st_this s)) opts schema role pth response
                               statusCode)
                     (s\<lparr>st_this := (st_this s)\<lparr>AJVoptions := opts\<rparr>,
                        st_calls := st_calls s
                                    @ [ResponseValidateCall pth response statusCode role]\<rparr>))
         else (Inr response, s))"

text \<open>Lines 129 to 138: the response is validated, with the role when roles are in use.\<close>

definition validateResponses_stage :: "env \<Rightarrow> string \<Rightarrow> jsval \<Rightarrow> jsval \<Rightarrow> jsval comp" where
  "validateResponses_stage E pth responseToValidate statusCode s =
     (if truthy (filterByRole (st_this s)) \<and> truthy (roleAuthorizerKey (st_this s))
      then (case resolve_role E (st_this s) (st_ev s) of
              Inl t \<Rightarrow> (Inl t, s)
            | Inr role \<Rightarrow> validateResponses_impl E pth responseToValidate statusCode role s)
      else validateResponses_impl E pth responseToValidate statusCode JUndef s)"

text \<open>
  \<^verbatim>\<open>Object.assign(response, { body: x })\<close>: a \<^verbatim>\<open>TypeError\<close> on \<^verbatim>\<open>null\<close> and \<^verbatim>\<open>undefined\<close>;
  on another primitive the copy goes to a wrapper that is dropped.
\<close>

definition assignBody :: "env \<Rightarrow> jsval \<Rightarrow> jsval \<Rightarrow> thrown + jsval" where
  "assignBody E response x =
     (case response of
        JObj kvs \<Rightarrow> Inr (JObj (setKey ''body'' x kvs))
      | JArr vs \<Rightarrow> setPropOther E response ''body'' x
      | JFun n \<Rightarrow> setPropOther E response ''body'' x
      | JUndef \<Rightarrow> Inl (TypeError E (WriteProperty response ''body''))
      | JNull \<Rightarrow> Inl (TypeError E (WriteProperty response ''body''))
      | _ \<Rightarrow> Inr response)"

text \<open>Lines 118 to 141.\<close>

definition filterResponse :: "env \<Rightarrow> string \<Rightarrow> jsval \<Rightarrow> jsval \<Rightarrow> jsval comp" where
  "filterResponse E pth response statusCode s =
     (case getProp E response ''body'' of
        Inl t \<Rightarrow> (Inl t, s)
      | Inr responseBody \<Rightarrow>
          (case (if isJson E responseBody
                 then (case parse E responseBody of Inl t \<Rightarrow> Inl t | Inr v \<Rightarrow> Inr (v, True))
                 else Inr (responseBody, False)) of
             Inl t \<Rightarrow> (Inl t, s)
           | Inr (responseToValidate, converted) \<Rightarrow>
               if truthy (validateResponses (st_this s)) \<or> truthy (filterByRole (st_this s))
               then bnd (validateResponses_stage E pth responseToValidate statusCode)
                      (\<lambda>filteredResponse.
                          lift (assignBody E response
                                  (if converted then stringify E filteredResponse
                                   else filteredResponse))) s
               else (Inr response, s)))"

subsection \<open>The whole run (lines 36 to 161)\<close>

text \<open>Lines 96 to 141: from the handler's result to the response.\<close>

definition respond :: "env \<Rightarrow> string \<Rightarrow> jsval \<Rightarrow> jsval comp" where
  "respond E pth lambdaResponse =
     bnd (lift (destructure E lambdaResponse)) (\<lambda>(response, statusCode, message).
       bnd (transformResponse E response statusCode message) (\<lambda>response'.
       bnd (lift (checkEnvelope E response')) (\<lambda>_.
         filterResponse E pth response' statusCode)))"

text \<open>Lines 53 to 141.\<close>

definition pipeline :: "env \<Rightarrow> jsval \<Rightarrow> string \<Rightarrow> string \<Rightarrow> jsval comp" where
  "pipeline E paths pth httpMethodLower =
     bnd (resolveRoute E paths pth httpMethodLower) (\<lambda>_.
     bnd (validateRequests_stage E pth) (\<lambda>_.
     bnd (transformRequests E) (\<lambda>_.
     bnd (invokeHandler E) (respond E pth))))"

text \<open>
  The body of the \<^verbatim>\<open>try\<close> block, up to the response that is handed back. Lines 43 to 51
  read the route table from the API spec and five properties from the event.
\<close>

definition try_block :: "env \<Rightarrow> jsval comp" where
  "try_block E =
     bnd (parseBody E) (\<lambda>_ s0.
       (case getProp E (apiSpec (st_this s0)) ''paths'' of
          Inl t \<Rightarrow> (Inl t, s0)
        | Inr paths \<Rightarrow>
            pipeline E paths (path (st_ev s0)) (toLowerCase E (httpMethod (st_ev s0)))
              (s0\<lparr>st_locals := (body (st_ev s0), pathParameters (st_ev s0),
                                 queryStringParameters (st_ev s0))\<rparr>)))"

text \<open>
  How a run ends: the envelope is returned, or handed to the callback when there is one
  (the platform's completion function, taken not to fault), or a fault leaves the handler.
\<close>

datatype delivery = Returned jsval | ViaCallback jsval | Escaped thrown

definition deliver :: "bool \<Rightarrow> jsval \<Rightarrow> delivery" where
  "deliver callback response = (if callback then ViaCallback response else Returned response)"

text \<open>
  The \<^verbatim>\<open>catch\<close> block (lines 148 to 159). Reading \<^verbatim>\<open>error.message\<close> of a thrown \<^verbatim>\<open>null\<close> or
  \<^verbatim>\<open>undefined\<close> faults, outside any \<^verbatim>\<open>try\<close>.
\<close>

definition error_envelope :: "env \<Rightarrow> jsval \<Rightarrow> jsval \<Rightarrow> jsval" where
  "error_envelope E message statusCode =
     JObj [(''body'', stringify E (JObj [(''message'', message)])),
           (''statusCode'', js_or statusCode (JNum 500))]"

definition catch_block :: "env \<Rightarrow> bool \<Rightarrow> thrown \<Rightarrow> delivery" where
  "catch_block E callback error =
     (case error of
        Nullish \<Rightarrow> Escaped (TypeError E (ReadProperty JUndef ''message''))
      | Fault message statusCode \<Rightarrow> deliver callback (error_envelope E message statusCode))"

record outcome =
  delivered :: delivery
  this_after :: OpenApiValidator
  event_after :: event
  calls :: "call list"

text \<open>
  \<^verbatim>\<open>install()\<close> returns the handler; \<open>install E this callback ev\<close> is one run of it on the
  event \<open>ev\<close>, with or without a callback, from the instance \<open>this\<close>.
\<close>

definition start :: "OpenApiValidator \<Rightarrow> event \<Rightarrow> state" where
  "start this ev =
     \<lparr>st_this = this, st_ev = ev, st_locals = (JUndef, JUndef, JUndef), st_calls = []\<rparr>"

definition install :: "env \<Rightarrow> OpenApiValidator \<Rightarrow> bool \<Rightarrow> event \<Rightarrow> outcome" where
  "install E this callback ev =
     (case try_block E (start this ev) of
        (r, s) \<Rightarrow>
          \<lparr> delivered = (case r of
                           Inr response \<Rightarrow> deliver callback response
                         | Inl error \<Rightarrow> catch_block E callback error),
            this_after = st_this s,
            event_after = st_ev s,
            calls = st_calls s \<rparr>)"

section \<open>Sample collaborators\<close>

text \<open>
  One concrete choice of the collaborators, for evaluating runs: an engine that knows no
  pattern beyond those spelled out above, a printer for values, validators that accept
  everything as it is, and a handler that answers 201 with a pet.
\<close>

fun split_dots :: "string \<Rightarrow> string \<Rightarrow> string list" where
  "split_dots acc [] = [rev acc]"
| "split_dots acc (c # cs) =
     (if c = CHR ''.'' then rev acc # split_dots [] cs else split_dots (c # acc) cs)"

fun show_nat :: "nat \<Rightarrow> nat \<Rightarrow> string" where
  "show_nat 0 n = []"
| "show_nat (Suc fuel) n =
     (if n < 10 then [char_of (48 + n)]
      else show_nat fuel (n div 10) @ [char_of (48 + n mod 10)])"

fun sample_show :: "jsval \<Rightarrow> string" where
  "sample_show JUndef = ''undefined''"
| "sample_show JNull = ''null''"
| "sample_show (JBool b) = (if b then ''true'' else ''false'')"
| "sample_show (JNum n) = (if n < 0 then ''-'' else []) @ show_nat 20 (nat \<bar>n\<bar>)"
| "sample_show (JStr s) = [CHR 0x22] @ s @ [CHR 0x22]"
| "sample_show (JObj kvs) =
     ''{'' @ concat (map (\<lambda>p. [CHR 0x22] @ fst p @ [CHR 0x22] @ '':'' @ sample_show (snd p) @ '','') kvs)
     @ ''}''"
| "sample_show (JArr vs) = ''['' @ concat (map (\<lambda>v. sample_show v @ '','') vs) @ '']''"
| "sample_show (JFun n) = ''function''"

definition is_structured :: "jsval \<Rightarrow> bool" where
  "is_structured v = (case v of JObj kvs \<Rightarrow> True | JArr vs \<Rightarrow> True | _ \<Rightarrow> False)"

definition sample_pet :: jsval where
  "sample_pet = JObj [(''id'', JNum 1), (''name'', JStr ''Rex'')]"

text \<open>The function \<^verbatim>\<open>handler\<close> answers 201 with the pet; any other returns \<^verbatim>\<open>undefined\<close>.\<close>

definition sample_call :: "string \<Rightarrow> jsval list \<Rightarrow> jsval hook" where
  "sample_call n args w =
     (if n = ''handler'' then (Inr (JArr [sample_pet, JNum 201]), w) else (Inr JUndef, w))"

definition sample_env :: env where
  "sample_env =
     \<lparr> isJson = is_structured,
       parse = (\<lambda>v. Inl (Fault (JStr ''SyntaxError'') JUndef)),
       stringify = (\<lambda>v. JStr (sample_show v)),
       regexp = (\<lambda>source. Inl ''Invalid regular expression''),
       toNumberOther = (\<lambda>v. None),
       toStringOther = sample_show,
       toLowerCaseOther = (\<lambda>s. s),
       propOther = (\<lambda>v k. JUndef),
       setPropOther = (\<lambda>v k x. Inr v),
       hasOwnOther = (\<lambda>v k. Inr False),
       keysOther = (\<lambda>v. []),
       iterateOther = (\<lambda>v. Inr []),
       errorMessage = (\<lambda>w. JStr ''TypeError''),
       stringToPath = split_dots [],
       callFunction = sample_call,
       requestValidate = (\<lambda>spec opts schema pth req w. (Inr req, w)),
       responseValidate = (\<lambda>spec opts schema role pth response statusCode w. (Inr response, w)) \<rparr>"

definition sample_paths :: "(string \<times> jsval) list" where
  "sample_paths =
     [(''/pet'', JObj [(''post'', JObj [(''operationId'', JStr ''addPet'')])]),
      (''/pet/{id}'', JObj [(''get'', JObj [(''operationId'', JStr ''getPet'')])]),
      (''/pet/{name}'', JObj [(''get'', JObj [(''operationId'', JStr ''findPet'')]),
                              (''put'', JObj [(''operationId'', JStr ''renamePet'')])])]"

definition sample_spec :: jsval where
  "sample_spec = JObj [(''paths'', JObj sample_paths)]"

text \<open>The options \<^verbatim>\<open>{ apiSpec }\<close>: everything else is left out.\<close>

definition sample_params :: params where
  "sample_params =
     \<lparr> p_apiSpec = sample_spec,
       p_contentType = JUndef,
       p_validateSpec = JUndef,
       p_validateRequests = JUndef,
       p_validateResponses = JUndef,
       p_requestBodyTransformer = JUndef,
       p_requestPathTransformer = JUndef,
       p_requestQueryTransformer = JUndef,
       p_responseSuccessTransformer = JUndef,
       p_responseErrorTransformer = JUndef,
       p_removeAdditionalRequestProps = JUndef,
       p_removeAdditionalResponseProps = JUndef,
       p_roleAuthorizerKey = JUndef,
       p_filterByRole = JUndef,
       p_defaultRoleName = JUndef,
       p_AJVoptions = JUndef \<rparr>"

definition sample_event :: event where
  "sample_event =
     \<lparr> body = JNull,
       httpMethod = ''GET'',
       path = ''/pet/123'',
       pathParameters = JObj [(''id'', JStr ''123'')],
       queryStringParameters = JNull,
       headers = Some [(''X-Role'', JStr ''admin'')],
       requestContext = JObj [(''authorizer'', JObj [(''claims'', JObj [])])],
       queryStringParams = JUndef \<rparr>"

definition post_event :: event where
  "post_event = sample_event\<lparr>httpMethod := ''POST'', path := ''/pet'', pathParameters := JNull\<rparr>"

text \<open>
  The instance the constructor builds from a set of options (with a valid API spec) and
  the sample handler.
\<close>

definition instance_of :: "params \<Rightarrow> OpenApiValidator" where
  "instance_of ps =
     \<lparr> apiSpec = p_apiSpec ps,
       contentType = js_or (p_contentType ps) TYPE_JSON,
       validateSpec = js_or (p_validateSpec ps) (JBool True),
       validateRequests = js_or (p_validateRequests ps) (JBool False),
       validateResponses = js_or (p_validateResponses ps) (JBool False),
       requestBodyTransformer = p_requestBodyTransformer ps,
       requestPathTransformer = p_requestPathTransformer ps,
       requestQueryTransformer = p_requestQueryTransformer ps,
       responseSuccessTransformer = p_responseSuccessTransformer ps,
       responseErrorTransformer = p_responseErrorTransformer ps,
       removeAdditionalRequestProps = js_or (p_removeAdditionalRequestProps ps) (JBool False),
       removeAdditionalResponseProps = js_or (p_removeAdditionalResponseProps ps) (JBool False),
       roleAuthorizerKey = js_or (p_roleAuthorizerKey ps) JNull,
       filterByRole = js_or (p_filterByRole ps) (JBool False),
       defaultRoleName = js_or (p_defaultRoleName ps) (JStr ''default''),
       AJVoptions = js_or (p_AJVoptions ps) (JObj []),
       config = JObj [],
       lambdaBody = JFun ''handler'',
       this_event = Unset \<rparr>"

section \<open>Vocabulary of the claims\<close>

text \<open>The fields of the instance other than \<^verbatim>\<open>event\<close>, \<^verbatim>\<open>config\<close> and \<^verbatim>\<open>AJVoptions\<close>.\<close>

definition same_settings :: "OpenApiValidator \<Rightarrow> OpenApiValidator \<Rightarrow> bool" where
  "same_settings a b =
     (apiSpec b = apiSpec a \<and> contentType b = contentType a \<and> validateSpec b = validateSpec a
      \<and> validateRequests b = validateRequests a \<and> validateResponses b = validateResponses a
      \<and> requestBodyTransformer b = requestBodyTransformer a
      \<and> requestPathTransformer b = requestPathTransformer a
      \<and> requestQueryTransformer b = requestQueryTransformer a
      \<and> responseSuccessTransformer b = responseSuccessTransformer a
      \<and> responseErrorTransformer b = responseErrorTransformer a
      \<and> removeAdditionalRequestProps b = removeAdditionalRequestProps a
      \<and> removeAdditionalResponseProps b = removeAdditionalResponseProps a
      \<and> roleAuthorizerKey b = roleAuthorizerKey a \<and> filterByRole b = filterByRole a
      \<and> defaultRoleName b = defaultRoleName a \<and> lambdaBody b = lambdaBody a)"

text \<open>
  The code that \<^verbatim>\<open>index.js\<close> calls (functions and validators) does not write to the
  instance.
\<close>

definition quiet :: "env \<Rightarrow> bool" where
  "quiet E =
     ((\<forall>n args w. fst (snd (callFunction E n args w)) = fst w)
      \<and> (\<forall>spec opts schema pth req w.
            fst (snd (requestValidate E spec opts schema pth req w)) = fst w)
      \<and> (\<forall>spec opts schema role pth response statusCode w.
            fst (snd (responseValidate E spec opts schema role pth response statusCode w)) = fst w))"

text \<open>
  From a state in which \<^verbatim>\<open>this.event\<close> is the event of the run, a step leaves every field
  of the instance but \<^verbatim>\<open>AJVoptions\<close> as it is.
\<close>

definition steady :: "'a comp \<Rightarrow> bool" where
  "steady m =
     (\<forall>s. this_event (st_this s) = Same \<longrightarrow>
          st_this (snd (m s)) = (st_this s)\<lparr>AJVoptions := AJVoptions (st_this (snd (m s)))\<rparr>)"

text \<open>The body of the event is either not JSON text or parses.\<close>

definition body_parses :: "env \<Rightarrow> event \<Rightarrow> bool" where
  "body_parses E ev = (isJson E (body ev) \<longrightarrow> (\<exists>v. parse E (body ev) = Inr v))"

text \<open>The event once line 39 has run.\<close>

definition parsed_event :: "env \<Rightarrow> event \<Rightarrow> event" where
  "parsed_event E ev =
     (if isJson E (body ev)
      then (case parse E (body ev) of Inl t \<Rightarrow> ev | Inr v \<Rightarrow> ev\<lparr>body := v\<rparr>)
      else ev)"

text \<open>The state in which line 53 is reached.\<close>

definition parsed_state :: "env \<Rightarrow> OpenApiValidator \<Rightarrow> event \<Rightarrow> state" where
  "parsed_state E this ev =
     \<lparr>st_this = this\<lparr>this_event := Same\<rparr>,
      st_ev = parsed_event E ev,
      st_locals = (body (parsed_event E ev), pathParameters ev, queryStringParameters ev),
      st_calls = []\<rparr>"

text \<open>\<^verbatim>\<open>paths[key][verb]\<close>, \<^verbatim>\<open>undefined\<close> where the read faults.\<close>

definition operation_at :: "env \<Rightarrow> jsval \<Rightarrow> string \<Rightarrow> string \<Rightarrow> jsval" where
  "operation_at E paths key verb =
     (case getProp E paths key of
        Inl t \<Rightarrow> JUndef
      | Inr pk \<Rightarrow> (case getProp E pk verb of Inl t \<Rightarrow> JUndef | Inr op \<Rightarrow> op))"

definition is_object :: "jsval \<Rightarrow> bool" where
  "is_object v = (case v of JObj kvs \<Rightarrow> True | _ \<Rightarrow> False)"

text \<open>
  The route table of a well-formed spec: the templates are distinct, each starts with a
  slash and maps to an object.
\<close>

definition route_table :: "(string \<times> jsval) list \<Rightarrow> bool" where
  "route_table kvs =
     (distinct (map fst kvs)
      \<and> (\<forall>kv \<in> set kvs. take 1 (fst kv) = ''/'' \<and> is_object (snd kv)))"

text \<open>
  What \<^verbatim>\<open>this.config\<close> holds once lines 53 to 72 have run without a fault: the resolved
  operation when request or response validation is on, what it held before otherwise.
\<close>

definition config_after_route ::
  "env \<Rightarrow> OpenApiValidator \<Rightarrow> jsval \<Rightarrow> string \<Rightarrow> string \<Rightarrow> jsval" where
  "config_after_route E this paths pth verb =
     (if truthy (validateRequests this) \<or> truthy (validateResponses this)
      then (case resolve E paths pth verb of Inl t \<Rightarrow> config this | Inr op \<Rightarrow> op)
      else config this)"

text \<open>
  The pattern of the template matches the path, and the template declares the verb
  (lines 61 and 62).
\<close>

definition selects :: "env \<Rightarrow> jsval \<Rightarrow> string \<Rightarrow> string \<Rightarrow> string \<Rightarrow> bool" where
  "selects E paths pth verb key =
     (regex_test E (route_regex key) pth = Inr True \<and> truthy (operation_at E paths key verb))"

text \<open>Every template of the list gives a pattern that \<^verbatim>\<open>RegExp\<close> accepts.\<close>

definition patterns_compile :: "env \<Rightarrow> string list \<Rightarrow> string \<Rightarrow> bool" where
  "patterns_compile E keys pth =
     (\<forall>key \<in> set keys. \<exists>b. regex_test E (route_regex key) pth = Inr b)"









section \<open>What the called code leaves alone\<close>

lemma run_hook_quiet:
  assumes "\<And>w. fst (snd (h w)) = fst w"
  shows "st_this (snd (run_hook h s)) = st_this s"
proof -
  obtain r t e l where h: "h (st_this s, st_ev s, st_locals s) = (r, (t, e, l))"
    by (metis prod_cases3 surj_pair)
  with assms [of "(st_this s, st_ev s, st_locals s)"] have "t = st_this s" by simp
  with h show ?thesis by (simp add: run_hook_def)
qed

lemma quiet_call: "quiet E \<Longrightarrow> fst (snd (callFunction E n args w)) = fst w"
  unfolding quiet_def by blast

lemma quiet_request:
  "quiet E \<Longrightarrow> fst (snd (requestValidate E spec opts schema pth req w)) = fst w"
  unfolding quiet_def by blast

lemma quiet_response:
  "quiet E \<Longrightarrow>
   fst (snd (responseValidate E spec opts schema role pth response statusCode w)) = fst w"
  unfolding quiet_def by blast

lemma call_method_quiet:
  assumes "quiet E"
  shows "st_this (snd (call_method E f args s)) = st_this s"
proof (cases f)
  case (JFun n)
  have "st_this (snd (run_hook (callFunction E n args) s)) = st_this s"
    by (intro run_hook_quiet quiet_call assms)
  with JFun show ?thesis by (simp add: call_method_def)
qed (simp_all add: call_method_def throw_def)

lemma steadyI:
  "(\<And>s. this_event (st_this s) = Same \<Longrightarrow>
        st_this (snd (m s)) = (st_this s)\<lparr>AJVoptions := AJVoptions (st_this (snd (m s)))\<rparr>)
   \<Longrightarrow> steady m"
  by (simp add: steady_def)

lemma steadyD:
  "steady m \<Longrightarrow> this_event (st_this s) = Same \<Longrightarrow>
   st_this (snd (m s)) = (st_this s)\<lparr>AJVoptions := AJVoptions (st_this (snd (m s)))\<rparr>"
  by (simp add: steady_def)

lemma steady_unchanged: "(\<And>s. st_this (snd (m s)) = st_this s) \<Longrightarrow> steady m"
  by (simp add: steady_def)

lemma but_options_event:
  "t' = t\<lparr>AJVoptions := x\<rparr> \<Longrightarrow> this_event t' = this_event t"
  by simp

lemma but_options_trans:
  "t' = t\<lparr>AJVoptions := x\<rparr> \<Longrightarrow> t'' = t'\<lparr>AJVoptions := y\<rparr> \<Longrightarrow> t'' = t\<lparr>AJVoptions := y\<rparr>"
  by simp

lemma steady_bnd:
  assumes m: "steady m" and f: "\<And>a. steady (f a)"
  shows "steady (bnd m f)"
proof (rule steadyI)
  fix s :: state
  assume same: "this_event (st_this s) = Same"
  obtain r s' where ms: "m s = (r, s')" by (cases "m s")
  from steadyD [OF m same] ms
  have 1: "st_this s' = (st_this s)\<lparr>AJVoptions := AJVoptions (st_this s')\<rparr>" by simp
  show "st_this (snd (bnd m f s)) = (st_this s)\<lparr>AJVoptions := AJVoptions (st_this (snd (bnd m f s)))\<rparr>"
  proof (cases r)
    case (Inl t)
    with ms 1 show ?thesis by (simp add: bnd_def)
  next
    case (Inr a)
    from but_options_event [OF 1] same have "this_event (st_this s') = Same" by simp
    from steadyD [OF f [of a] this]
    have "st_this (snd (f a s')) = (st_this s')\<lparr>AJVoptions := AJVoptions (st_this (snd (f a s')))\<rparr>" .
    from but_options_trans [OF 1 this]
    have "st_this (snd (f a s')) = (st_this s)\<lparr>AJVoptions := AJVoptions (st_this (snd (f a s')))\<rparr>" .
    with ms Inr show ?thesis by (simp add: bnd_def)
  qed
qed

lemma steady_lift [simp]: "steady (lift x)" by (simp add: steady_def lift_def)
lemma steady_ret [simp]: "steady (ret x)" by (simp add: steady_def ret_def)
lemma steady_throw [simp]: "steady (throw x)" by (simp add: steady_def throw_def)

lemma steady_write_this_event [simp]: "steady (write_this_event E k f)"
  by (simp add: steady_def write_this_event_def)

lemma steady_call_method: "quiet E \<Longrightarrow> steady (call_method E f args)"
  by (rule steady_unchanged) (rule call_method_quiet)

lemma steady_transformBody:
  assumes "quiet E"
  shows "steady (transformBody E)"
proof (rule steadyI)
  fix s :: state
  assume same: "this_event (st_this s) = Same"
  have "steady (bnd (call_method E (requestBodyTransformer (st_this s)) [js_or (fst (st_locals s)) (JObj [])])
                 (\<lambda>v. write_this_event E ''body'' (\<lambda>e. e\<lparr>body := v\<rparr>)))"
    by (intro steady_bnd steady_call_method assms steady_write_this_event)
  from steadyD [OF this same]
  show "st_this (snd (transformBody E s))
          = (st_this s)\<lparr>AJVoptions := AJVoptions (st_this (snd (transformBody E s)))\<rparr>"
    by (simp add: transformBody_def)
qed

lemma steady_transformPath:
  assumes "quiet E"
  shows "steady (transformPath E)"
proof (rule steadyI)
  fix s :: state
  assume same: "this_event (st_this s) = Same"
  have "steady (bnd (call_method E (requestPathTransformer (st_this s)) [js_or (fst (snd (st_locals s))) (JObj [])])
                 (\<lambda>v. write_this_event E ''pathParameters'' (\<lambda>e. e\<lparr>pathParameters := v\<rparr>)))"
    by (intro steady_bnd steady_call_method assms steady_write_this_event)
  from steadyD [OF this same]
  show "st_this (snd (transformPath E s))
          = (st_this s)\<lparr>AJVoptions := AJVoptions (st_this (snd (transformPath E s)))\<rparr>"
    by (simp add: transformPath_def)
qed

lemma steady_transformQuery:
  assumes "quiet E"
  shows "steady (transformQuery E)"
proof (rule steadyI)
  fix s :: state
  assume same: "this_event (st_this s) = Same"
  have "steady (bnd (call_method E (requestQueryTransformer (st_this s)) [js_or (snd (snd (st_locals s))) (JObj [])])
                 (\<lambda>v. write_this_event E ''queryStringParameters'' (\<lambda>e. e\<lparr>queryStringParameters := v\<rparr>)))"
    by (intro steady_bnd steady_call_method assms steady_write_this_event)
  from steadyD [OF this same]
  show "st_this (snd (transformQuery E s))
          = (st_this s)\<lparr>AJVoptions := AJVoptions (st_this (snd (transformQuery E s)))\<rparr>"
    by (simp add: transformQuery_def)
qed

lemma steady_transformRequests: "quiet E \<Longrightarrow> steady (transformRequests E)"
  unfolding transformRequests_def
  by (intro steady_bnd steady_transformBody steady_transformPath steady_transformQuery)

lemma steady_invokeHandler: "quiet E \<Longrightarrow> steady (invokeHandler E)"
  by (rule steady_unchanged) (simp add: invokeHandler_def call_method_quiet)

lemma steady_transformResponse:
  "quiet E \<Longrightarrow> steady (transformResponse E response statusCode message)"
  by (rule steady_unchanged) (simp add: transformResponse_def call_method_quiet)

lemma run_hook_but_options:
  assumes "\<And>w. fst (snd (h w)) = fst w"
  shows "st_this (snd (run_hook h (s\<lparr>st_this := t, st_calls := c\<rparr>))) = t"
  using run_hook_quiet [OF assms, of "s\<lparr>st_this := t, st_calls := c\<rparr>"] by simp

lemma steady_validateRequests_impl:
  assumes "quiet E"
  shows "steady (validateRequests_impl E pth)"
proof (rule steadyI)
  fix s :: state
  assume same: "this_event (st_this s) = Same"
  show "st_this (snd (validateRequests_impl E pth s))
          = (st_this s)\<lparr>AJVoptions := AJVoptions (st_this (snd (validateRequests_impl E pth s)))\<rparr>"
  proof (cases "truthy (config (st_this s))")
    case False
    then show ?thesis by (simp add: validateRequests_impl_def)
  next
    case True
    show ?thesis
    proof (cases "setProp E (AJVoptions (st_this s)) ''removeAdditional''
                      (removeAdditionalRequestProps (st_this s))")
      case (Inl t)
      with True show ?thesis by (simp add: validateRequests_impl_def)
    next
      case (Inr opts)
      define s3 where "s3 = s\<lparr>st_this := (st_this s)\<lparr>AJVoptions := opts\<rparr>,
                              st_ev := alias_headers E (st_ev s),
                              st_calls := st_calls s @ [RequestValidateCall pth (build_request E (st_ev s))]\<rparr>"
      define h where "h = requestValidate E (apiSpec (st_this s)) opts (config (st_this s)) pth
                            (build_request E (st_ev s))"
      have q: "\<And>w. fst (snd (h w)) = fst w"
        unfolding h_def by (rule quiet_request [OF assms])
      obtain r s4 where run: "run_hook h s3 = (r, s4)" by (cases "run_hook h s3")
      have "st_this s4 = st_this s3"
        using run_hook_quiet [OF q, of s3] run by simp
      then have s4: "st_this s4 = (st_this s)\<lparr>AJVoptions := opts\<rparr>"
        by (simp add: s3_def)
      have "fst (validateRequests_impl E pth s) = fst (validateRequests_impl E pth s)
            \<and> snd (validateRequests_impl E pth s) = s4"
        using True Inr same run
        by (cases r) (simp_all add: validateRequests_impl_def Let_def write_this_event_def
                        s3_def h_def)
      with s4 show ?thesis by simp
    qed
  qed
qed

lemma steady_validateRequests_stage:
  assumes "quiet E"
  shows "steady (validateRequests_stage E pth)"
proof (rule steadyI)
  fix s :: state
  assume same: "this_event (st_this s) = Same"
  have "steady (bnd (validateRequests_impl E pth)
                  (\<lambda>fo. write_this_event E ''body'' (assign_filtered fo)))"
    by (intro steady_bnd steady_validateRequests_impl assms steady_write_this_event)
  from steadyD [OF this same]
  show "st_this (snd (validateRequests_stage E pth s))
          = (st_this s)\<lparr>AJVoptions := AJVoptions (st_this (snd (validateRequests_stage E pth s)))\<rparr>"
    by (simp add: validateRequests_stage_def)
qed

lemma steady_validateResponses_impl:
  assumes "quiet E"
  shows "steady (validateResponses_impl E pth response statusCode role0)"
proof (rule steadyI)
  fix s :: state
  assume same: "this_event (st_this s) = Same"
  let ?m = "validateResponses_impl E pth response statusCode role0"
  show "st_this (snd (?m s)) = (st_this s)\<lparr>AJVoptions := AJVoptions (st_this (snd (?m s)))\<rparr>"
  proof (cases "truthy (config (st_this s))")
    case False
    then show ?thesis by (simp add: validateResponses_impl_def Let_def)
  next
    case True
    show ?thesis
    proof (cases "setProp E (AJVoptions (st_this s)) ''removeAdditional''
                      (removeAdditionalResponseProps (st_this s))")
      case (Inl t)
      with True show ?thesis by (simp add: validateResponses_impl_def Let_def)
    next
      case (Inr opts)
      have "st_this (snd (?m s)) = (st_this s)\<lparr>AJVoptions := opts\<rparr>"
        using True Inr
        by (simp add: validateResponses_impl_def Let_def
              run_hook_but_options [OF quiet_response [OF assms]])
      then show ?thesis by simp
    qed
  qed
qed

lemma steady_validateResponses_stage:
  assumes "quiet E"
  shows "steady (validateResponses_stage E pth response statusCode)"
proof (rule steadyI)
  fix s :: state
  assume same: "this_event (st_this s) = Same"
  let ?m = "validateResponses_stage E pth response statusCode"
  note impl = steadyD [OF steady_validateResponses_impl [OF assms] same]
  show "st_this (snd (?m s)) = (st_this s)\<lparr>AJVoptions := AJVoptions (st_this (snd (?m s)))\<rparr>"
  proof (cases "truthy (filterByRole (st_this s)) \<and> truthy (roleAuthorizerKey (st_this s))")
    case False
    show ?thesis
      unfolding validateResponses_stage_def if_not_P [OF False] by (rule impl)
  next
    case True
    show ?thesis
    proof (cases "resolve_role E (st_this s) (st_ev s)")
      case (Inl t)
      with True show ?thesis by (simp add: validateResponses_stage_def)
    next
      case (Inr role)
      with True show ?thesis using impl [of pth response statusCode role]
        by (simp add: validateResponses_stage_def)
    qed
  qed
qed

lemma steady_filterResponse:
  assumes "quiet E"
  shows "steady (filterResponse E pth response statusCode)"
proof (rule steadyI)
  fix s :: state
  assume same: "this_event (st_this s) = Same"
  let ?m = "filterResponse E pth response statusCode"
  have k: "steady (bnd (validateResponses_stage E pth rtv statusCode)
                      (\<lambda>filteredResponse.
                          lift (assignBody E response
                                  (if converted then stringify E filteredResponse
                                   else filteredResponse))))" for rtv converted
    by (intro steady_bnd steady_validateResponses_stage assms steady_lift)
  show "st_this (snd (?m s)) = (st_this s)\<lparr>AJVoptions := AJVoptions (st_this (snd (?m s)))\<rparr>"
  proof (cases "getProp E response ''body''")
    case (Inl t)
    then show ?thesis by (simp add: filterResponse_def)
  next
    case (Inr responseBody)
    show ?thesis
    proof (cases "if isJson E responseBody
                 then (case parse E responseBody of Inl t \<Rightarrow> Inl t | Inr v \<Rightarrow> Inr (v, True))
                 else Inr (responseBody, False)")
      case (Inl t)
      with Inr show ?thesis by (simp add: filterResponse_def)
    next
      case inner: (Inr p)
      obtain rtv converted where p: "p = (rtv, converted)" by (cases p)
      show ?thesis
      proof (cases "truthy (validateResponses (st_this s)) \<or> truthy (filterByRole (st_this s))")
        case True
        show ?thesis
          unfolding filterResponse_def Inr inner p sum.case prod.case if_P [OF True]
          by (rule steadyD [OF k same])
      next
        case False
        show ?thesis
          unfolding filterResponse_def Inr inner p sum.case prod.case if_not_P [OF False]
          by simp
      qed
    qed
  qed
qed

lemma steady_respond:
  assumes "quiet E"
  shows "steady (respond E pth lambdaResponse)"
  unfolding respond_def
proof (rule steady_bnd [OF steady_lift])
  fix triple :: "jsval \<times> jsval \<times> jsval"
  obtain response statusCode message where "triple = (response, statusCode, message)"
    by (cases triple)
  then show "steady (case triple of
                (response, statusCode, message) \<Rightarrow>
                  bnd (transformResponse E response statusCode message) (\<lambda>response'.
                  bnd (lift (checkEnvelope E response')) (\<lambda>_.
                    filterResponse E pth response' statusCode)))"
    by (simp add: steady_bnd steady_transformResponse steady_filterResponse assms)
qed

text \<open>Lines 74 to 141: everything after the route has been resolved.\<close>

lemma steady_after_route:
  assumes "quiet E"
  shows "steady (bnd (validateRequests_stage E pth) (\<lambda>_.
                 bnd (transformRequests E) (\<lambda>_.
                 bnd (invokeHandler E) (respond E pth))))"
  by (intro steady_bnd steady_validateRequests_stage steady_transformRequests
        steady_invokeHandler steady_respond assms)

section \<open>The run up to route resolution\<close>

lemma parsed_event_fields [simp]:
  "path (parsed_event E ev) = path ev"
  "httpMethod (parsed_event E ev) = httpMethod ev"
  "pathParameters (parsed_event E ev) = pathParameters ev"
  "queryStringParameters (parsed_event E ev) = queryStringParameters ev"
  "headers (parsed_event E ev) = headers ev"
  "requestContext (parsed_event E ev) = requestContext ev"
  "queryStringParams (parsed_event E ev) = queryStringParams ev"
  by (simp_all add: parsed_event_def split: sum.splits)

lemma parseBody_fails:
  assumes "\<not> body_parses E ev"
  shows "\<exists>t. parseBody E (start this ev) = (Inl t, start this ev)"
proof -
  from assms have j: "isJson E (body ev)" and n: "\<nexists>v. parse E (body ev) = Inr v"
    by (auto simp: body_parses_def)
  then obtain t where "parse E (body ev) = Inl t" by (cases "parse E (body ev)") auto
  with j show ?thesis by (simp add: parseBody_def start_def)
qed

lemma parseBody_ok:
  assumes "body_parses E ev"
  shows "parseBody E (start this ev)
           = (Inr (), (parsed_state E this ev)\<lparr>st_locals := (JUndef, JUndef, JUndef)\<rparr>)"
proof (cases "isJson E (body ev)")
  case True
  with assms obtain v where "parse E (body ev) = Inr v" by (auto simp: body_parses_def)
  with True show ?thesis
    by (simp add: parseBody_def parsed_state_def parsed_event_def start_def)
next
  case False
  then show ?thesis
    by (simp add: parseBody_def parsed_state_def parsed_event_def start_def)
qed

lemma try_block_unparsed:
  assumes "\<not> body_parses E ev"
  shows "\<exists>t. try_block E (start this ev) = (Inl t, start this ev)"
proof -
  from parseBody_fails [OF assms] obtain t where
    "parseBody E (start this ev) = (Inl t, start this ev)" ..
  then show ?thesis by (simp add: try_block_def bnd_def)
qed

lemma try_block_no_paths:
  assumes "body_parses E ev" and "getProp E (apiSpec this) ''paths'' = Inl t"
  shows "try_block E (start this ev)
           = (Inl t, (parsed_state E this ev)\<lparr>st_locals := (JUndef, JUndef, JUndef)\<rparr>)"
  using assms(2) by (simp add: try_block_def bnd_def parseBody_ok [OF assms(1)] parsed_state_def)

lemma try_block_parsed:
  assumes "body_parses E ev" and "getProp E (apiSpec this) ''paths'' = Inr paths"
  shows "try_block E (start this ev) =
           pipeline E paths (path ev) (toLowerCase E (httpMethod ev)) (parsed_state E this ev)"
  using assms(2) by (simp add: try_block_def bnd_def parseBody_ok [OF assms(1)] parsed_state_def)

lemma pipeline_unresolved:
  assumes "truthy (validateRequests (st_this s)) \<or> truthy (validateResponses (st_this s))"
    and "resolve E paths pth verb = Inl t"
  shows "pipeline E paths pth verb s = (Inl t, s)"
  using assms by (simp add: pipeline_def bnd_def resolveRoute_def)

lemma pipeline_resolved:
  "pipeline E paths pth verb s =
     (if truthy (validateRequests (st_this s)) \<or> truthy (validateResponses (st_this s))
      then (case resolve E paths pth verb of
              Inl t \<Rightarrow> (Inl t, s)
            | Inr op \<Rightarrow>
                bnd (validateRequests_stage E pth) (\<lambda>_.
                  bnd (transformRequests E) (\<lambda>_.
                  bnd (invokeHandler E) (respond E pth)))
                  (s\<lparr>st_this := (st_this s)\<lparr>config := op\<rparr>\<rparr>))
      else bnd (validateRequests_stage E pth) (\<lambda>_.
             bnd (transformRequests E) (\<lambda>_.
             bnd (invokeHandler E) (respond E pth))) s)"
  by (simp add: pipeline_def bnd_def resolveRoute_def split: sum.splits)

lemma pipeline_instance:
  assumes q: "quiet E" and same: "this_event (st_this s) = Same"
  shows "st_this (snd (pipeline E paths pth verb s))
           = (st_this s)\<lparr>config := config_after_route E (st_this s) paths pth verb,
                          AJVoptions := AJVoptions (st_this (snd (pipeline E paths pth verb s)))\<rparr>"
proof -
  let ?rest = "bnd (validateRequests_stage E pth) (\<lambda>_.
                 bnd (transformRequests E) (\<lambda>_.
                 bnd (invokeHandler E) (respond E pth)))"
  note rest = steadyD [OF steady_after_route [OF q, of pth]]
  show ?thesis
  proof (cases "truthy (validateRequests (st_this s)) \<or> truthy (validateResponses (st_this s))")
    case False
    have "st_this (snd (?rest s)) = (st_this s)\<lparr>AJVoptions := AJVoptions (st_this (snd (?rest s)))\<rparr>"
      by (rule rest [OF same])
    then show ?thesis
      unfolding pipeline_resolved config_after_route_def if_not_P [OF False] by simp
  next
    case True
    show ?thesis
    proof (cases "resolve E paths pth verb")
      case (Inl t)
      show ?thesis
        unfolding pipeline_resolved config_after_route_def if_P [OF True] Inl by simp
    next
      case (Inr op)
      let ?s = "s\<lparr>st_this := (st_this s)\<lparr>config := op\<rparr>\<rparr>"
      have "this_event (st_this ?s) = Same" using same by simp
      from rest [OF this]
      have "st_this (snd (?rest ?s))
              = (st_this s)\<lparr>config := op, AJVoptions := AJVoptions (st_this (snd (?rest ?s)))\<rparr>"
        by simp
      then show ?thesis
        unfolding pipeline_resolved config_after_route_def if_P [OF True] Inr by simp
    qed
  qed
qed

section \<open>Evaluating runs\<close>

lemmas run_defs = install_def start_def try_block_def pipeline_def respond_def bnd_def ret_def
  throw_def lift_def run_hook_def call_method_def write_this_event_def parseBody_def
  resolveRoute_def resolve_def validateRequests_stage_def
  validateRequests_impl_def passed_event_def assign_filtered_def build_request_def alias_headers_def
  transformRequests_def transformBody_def transformPath_def transformQuery_def
  invokeHandler_def destructure_def iterate_def nth_or_def
  toNumber_def lt300_def constructDefaultResponse_def transformResponse_def checkEnvelope_def
  hasOwnProperty_def filterResponse_def assignBody_def validateResponses_stage_def
  validateResponses_impl_def resolve_role_def default_role_claim_def
  lodash_get_def keyOf_def eventProp_def deliver_def catch_block_def error_envelope_def
  js_or_def lookupKey_def inherited_def object_prototype_names_def toLowerCase_def lower_char_def
  ascii_def getProp_def setProp_def objectKeys_def own_keys_def is_index_def is_digit_def
  ValidationError_def TypeError_def EnvelopeContractError_def path_not_found_def
  key_matches_def Let_def

lemmas sample_defs = sample_env_def sample_spec_def sample_paths_def sample_call_def sample_pet_def
  sample_event_def post_event_def is_structured_def instance_of_def sample_params_def TYPE_JSON_def

lemma constructor_sample:
  "truthy (p_apiSpec ps) \<Longrightarrow> is_structured (p_apiSpec ps) \<Longrightarrow>
   constructor sample_env ps (JFun ''handler'') = Inr (instance_of ps)"
  by (simp add: instance_of_def constructor_def sample_env_def)

lemma quiet_sample: "quiet sample_env"
  by (simp add: quiet_def sample_env_def sample_call_def)

section \<open>Route resolution\<close>

lemma route_table_lookup:
  assumes "route_table kvs" "key \<in> set (map fst kvs)"
  shows "\<exists>ops. getProp E (JObj kvs) key = Inr (JObj ops)"
proof -
  from assms(2) obtain v where v: "map_of kvs key = Some v"
    by (cases "map_of kvs key") (auto simp: map_of_eq_None_iff)
  then have "(key, v) \<in> set kvs" by (rule map_of_SomeD)
  with assms(1) have "is_object v" by (auto simp: route_table_def)
  then obtain ops where "v = JObj ops" by (cases v) (auto simp: is_object_def)
  with v show ?thesis by (simp add: getProp_def lookupKey_def)
qed

lemma slash_not_index: "take 1 k = ''/'' \<Longrightarrow> \<not> is_index k \<and> k \<noteq> []"
  by (cases k) (auto simp: is_index_def is_digit_def)

lemma route_table_key:
  assumes "route_table kvs" "k \<in> set (map fst kvs)"
  shows "\<not> is_index k" and "k \<noteq> []"
proof -
  from assms(2) obtain v where "(k, v) \<in> set kvs" by auto
  with assms(1) have "take 1 (fst (k, v)) = ''/''"
    unfolding route_table_def by blast
  then have "take 1 k = ''/''" by simp
  from slash_not_index [OF this] show "\<not> is_index k" and "k \<noteq> []" by simp_all
qed

lemma route_table_keys:
  assumes "route_table kvs"
  shows "objectKeys E (JObj kvs) = map fst kvs"
proof -
  have "\<forall>k \<in> set (map fst kvs). \<not> is_index k"
    using route_table_key(1) [OF assms] by blast
  then have "filter is_index (map fst kvs) = []"
    and "filter (\<lambda>k. \<not> is_index k) (map fst kvs) = map fst kvs"
    by (simp_all add: filter_empty_conv filter_id_conv)
  then show ?thesis by (simp add: objectKeys_def own_keys_def)
qed

lemma key_matches_route_table:
  assumes "route_table kvs" "key \<in> set (map fst kvs)"
    and "regex_test E (route_regex key) pth = Inr b"
  shows "key_matches E (JObj kvs) pth verb key = Inr (selects E (JObj kvs) pth verb key)"
proof -
  from route_table_lookup [OF assms(1,2)] obtain ops where
    "getProp E (JObj kvs) key = Inr (JObj ops)" ..
  moreover obtain op where "getProp E (JObj ops) verb = Inr op"
    by (simp add: getProp_def)
  ultimately show ?thesis using assms(3)
    by (cases b) (simp_all add: key_matches_def selects_def operation_at_def)
qed

lemma find_key_route_table:
  assumes "route_table kvs" "set keys \<subseteq> set (map fst kvs)" "patterns_compile E keys pth"
  shows "find_key E (JObj kvs) pth verb keys = Inr (List.find (selects E (JObj kvs) pth verb) keys)"
  using assms(2,3)
proof (induction keys)
  case Nil
  show ?case by simp
next
  case (Cons key keys)
  then have mem: "key \<in> set (map fst kvs)" by simp
  from Cons.prems(2) obtain b where b: "regex_test E (route_regex key) pth = Inr b"
    by (auto simp: patterns_compile_def)
  from Cons.prems(2) have rest: "patterns_compile E keys pth"
    by (simp add: patterns_compile_def)
  from key_matches_route_table [OF assms(1) mem b]
  have "key_matches E (JObj kvs) pth verb key = Inr (selects E (JObj kvs) pth verb key)" .
  with Cons rest show ?case by simp
qed

lemma resolve_miss:
  assumes rt: "route_table kvs"
    and pc: "patterns_compile E (map fst kvs) pth"
    and miss: "\<not> truthy (operation_at E (JObj kvs) pth verb)"
  shows "resolve E (JObj kvs) pth verb =
           (case List.find (selects E (JObj kvs) pth verb) (map fst kvs) of
              None \<Rightarrow> Inl (path_not_found pth verb)
            | Some key \<Rightarrow> Inr (operation_at E (JObj kvs) key verb))"
proof -
  have fk: "find_key E (JObj kvs) pth verb (objectKeys E (JObj kvs))
              = Inr (List.find (selects E (JObj kvs) pth verb) (map fst kvs))"
    using find_key_route_table [OF rt _ pc, of verb] by (simp add: route_table_keys [OF rt])
  obtain pp where pp: "getProp E (JObj kvs) pth = Inr pp" by (simp add: getProp_def)
  have falsy: "(case (if truthy pp then getProp E pp verb else Inr pp) of
             Inl t \<Rightarrow> False | Inr op \<Rightarrow> \<not> truthy op)"
  proof (cases "truthy pp")
    case True
    then obtain op where "getProp E pp verb = Inr op" by (cases pp) (auto simp: getProp_def)
    with miss pp True show ?thesis by (simp add: operation_at_def)
  next
    case False
    then show ?thesis by simp
  qed
  then obtain op where op: "(if truthy pp then getProp E pp verb else Inr pp) = Inr op" "\<not> truthy op"
    by (cases "if truthy pp then getProp E pp verb else Inr pp") auto
  show ?thesis
  proof (cases "List.find (selects E (JObj kvs) pth verb) (map fst kvs)")
    case None
    with fk pp op show ?thesis unfolding resolve_def by simp
  next
    case (Some key)
    then have mem: "key \<in> set (map fst kvs)"
      by (auto simp: find_Some_iff)
    then have ne: "key \<noteq> []" by (rule route_table_key(2) [OF rt])
    from route_table_lookup [OF rt mem] obtain ops where
      ops: "getProp E (JObj kvs) key = Inr (JObj ops)" ..
    obtain o' where "getProp E (JObj ops) verb = Inr o'" by (simp add: getProp_def)
    with ops have "(case getProp E (JObj kvs) key of Inl t \<Rightarrow> Inl t | Inr pk \<Rightarrow> getProp E pk verb)
                 = Inr (operation_at E (JObj kvs) key verb)"
      by (simp add: operation_at_def)
    with fk pp op Some ne show ?thesis unfolding resolve_def by simp
  qed
qed

section \<open>What the pattern of a plain template matches\<close>
























lemma ascii_append [simp]: "ascii (a @ b) \<longleftrightarrow> ascii a \<and> ascii b"
  by (simp add: ascii_def)





section \<open>Evaluating patterns\<close>

lemma var_ends_Nil: "var_ends [] = []"
  by (simp add: var_ends.simps unit_step_def)

lemma var_ends_Cons:
  "var_ends (c # cs) =
     (if class_char c then cs # var_ends cs
      else if take 3 (c # cs) = ''%20'' then drop 3 (c # cs) # var_ends (drop 3 (c # cs))
      else [])"
  by (subst var_ends.simps) (simp add: unit_step_def)

lemmas regex_eval = regex_test_def route_regex_def var_group_def var_ends_Nil var_ends_Cons
  class_char_def class_chars_def ascii_def plain_char_def




lemma extra_does_not_match:
  "regex_test E (route_regex ''/pet'') ''/pet/123/extra'' = Inr False"
  "regex_test E (route_regex ''/pet/{id}'') ''/pet/123/extra'' = Inr False"
  "regex_test E (route_regex ''/pet/{name}'') ''/pet/123/extra'' = Inr False"
  by (simp_all add: regex_eval)

lemma nowhere_does_not_match:
  "regex_test E (route_regex ''/pet'') ''/nowhere'' = Inr False"
  "regex_test E (route_regex ''/pet/{id}'') ''/nowhere'' = Inr False"
  "regex_test E (route_regex ''/pet/{name}'') ''/nowhere'' = Inr False"
  by (simp_all add: regex_eval)

lemma sample_route_table: "route_table sample_paths"
  by (simp add: route_table_def sample_paths_def is_object_def)

section \<open>The claims\<close>

text \<open>
  C2, as stated: every invocation resolves the route, and one whose path matches no
  template fails with PathNotFound without the handler being invoked. With request and
  response validation both off (the defaults) line 53 skips the resolution: the path
  \<^verbatim>\<open>/nowhere\<close> matches no template of the sample spec, yet the handler runs and its 201
  is delivered.
\<close>

theorem route_not_resolved_counterexample:
  "List.find (selects sample_env (JObj sample_paths) ''/nowhere'' ''get'') (map fst sample_paths)
     = None
   \<and> \<not> truthy (operation_at sample_env (JObj sample_paths) ''/nowhere'' ''get'')
   \<and> delivered (install sample_env (instance_of sample_params) False
                (sample_event\<lparr>path := ''/nowhere''\<rparr>))
     = Returned (JObj [(''body'', JStr (sample_show sample_pet)), (''statusCode'', JNum 201)])
   \<and> calls (install sample_env (instance_of sample_params) False
                (sample_event\<lparr>path := ''/nowhere''\<rparr>))
     = [HandlerCall (sample_event\<lparr>path := ''/nowhere''\<rparr>)]"
proof -
  have "List.find (selects sample_env (JObj sample_paths) ''/nowhere'' ''get'') (map fst sample_paths)
     = None"
    by (simp add: sample_paths_def selects_def nowhere_does_not_match)
  moreover have "\<not> truthy (operation_at sample_env (JObj sample_paths) ''/nowhere'' ''get'')"
    by (simp add: operation_at_def getProp_def lookupKey_def inherited_def
          object_prototype_names_def sample_paths_def)
  moreover have "delivered (install sample_env (instance_of sample_params) False
                (sample_event\<lparr>path := ''/nowhere''\<rparr>))
     = Returned (JObj [(''body'', JStr (sample_show sample_pet)), (''statusCode'', JNum 201)])
   \<and> calls (install sample_env (instance_of sample_params) False
                (sample_event\<lparr>path := ''/nowhere''\<rparr>))
     = [HandlerCall (sample_event\<lparr>path := ''/nowhere''\<rparr>)]"
    by (simp add: run_defs sample_defs del: sample_show.simps)
  ultimately show ?thesis by blast
qed

text \<open>
  C2, amended: when request or response validation is enabled, the body of the event (if
  it is JSON text) parses, the route table is well formed (distinct templates, each
  starting with a slash and mapping to an object) and each of its templates gives a
  pattern that \<^verbatim>\<open>RegExp\<close> accepts, then an invocation whose path has no operation for the
  lower-cased verb under the exact key, and for which no template both matches the path and
  declares the verb, ends with the envelope of the PathNotFound fault: status 400 and a
  message naming the path and the verb. Nothing has been called by then: neither the
  handler nor a validator.
\<close>

theorem unresolved_route_is_path_not_found:
  assumes flags: "truthy (validateRequests this) \<or> truthy (validateResponses this)"
    and body: "body_parses E ev"
    and paths: "getProp E (apiSpec this) ''paths'' = Inr (JObj kvs)"
    and table: "route_table kvs"
    and compile: "patterns_compile E (map fst kvs) (path ev)"
    and miss: "\<not> truthy (operation_at E (JObj kvs) (path ev) (toLowerCase E (httpMethod ev)))"
    and none: "\<forall>key \<in> set (map fst kvs).
                 \<not> (regex_test E (route_regex key) (path ev) = Inr True
                    \<and> truthy (operation_at E (JObj kvs) key (toLowerCase E (httpMethod ev))))"
  shows "delivered (install E this callback ev) =
           deliver callback
             (JObj [(''body'', stringify E (JObj [(''message'',
                       JStr (''The path '' @ path ev @ '' could not be found with http method ''
                             @ toLowerCase E (httpMethod ev) @ '' in the API spec''))])),
                    (''statusCode'', JNum 400)])
         \<and> calls (install E this callback ev) = []"
proof -
  let ?verb = "toLowerCase E (httpMethod ev)"
  have "List.find (selects E (JObj kvs) (path ev) ?verb) (map fst kvs) = None"
    using none by (simp add: find_None_iff selects_def)
  with resolve_miss [OF table compile miss]
  have r: "resolve E (JObj kvs) (path ev) ?verb = Inl (path_not_found (path ev) ?verb)"
    by simp
  have f: "truthy (validateRequests (st_this (parsed_state E this ev)))
           \<or> truthy (validateResponses (st_this (parsed_state E this ev)))"
    using flags by (simp add: parsed_state_def)
  have "try_block E (start this ev)
          = (Inl (path_not_found (path ev) ?verb), parsed_state E this ev)"
    by (simp only: try_block_parsed [OF body paths] pipeline_unresolved [OF f r])
  then show ?thesis
    by (simp add: install_def catch_block_def path_not_found_def ValidationError_def
          error_envelope_def js_or_def parsed_state_def)
qed

theorem unresolved_route_is_path_not_found_witness:
  "truthy (validateRequests (instance_of (sample_params\<lparr>p_validateRequests := JBool True\<rparr>)))
   \<and> body_parses sample_env (sample_event\<lparr>path := ''/pet/123/extra''\<rparr>)
   \<and> getProp sample_env
        (apiSpec (instance_of (sample_params\<lparr>p_validateRequests := JBool True\<rparr>))) ''paths''
       = Inr (JObj sample_paths)
   \<and> route_table sample_paths
   \<and> patterns_compile sample_env (map fst sample_paths) ''/pet/123/extra''
   \<and> \<not> truthy (operation_at sample_env (JObj sample_paths) ''/pet/123/extra'' ''get'')
   \<and> List.find (selects sample_env (JObj sample_paths) ''/pet/123/extra'' ''get'')
        (map fst sample_paths) = None
   \<and> delivered (install sample_env
        (instance_of (sample_params\<lparr>p_validateRequests := JBool True\<rparr>)) False
        (sample_event\<lparr>path := ''/pet/123/extra''\<rparr>))
      = Returned (JObj [(''body'', stringify sample_env (JObj [(''message'',
           JStr ''The path /pet/123/extra could not be found with http method get in the API spec'')])),
         (''statusCode'', JNum 400)])
   \<and> calls (install sample_env
        (instance_of (sample_params\<lparr>p_validateRequests := JBool True\<rparr>)) False
        (sample_event\<lparr>path := ''/pet/123/extra''\<rparr>)) = []"
proof -
  let ?inst = "instance_of (sample_params\<lparr>p_validateRequests := JBool True\<rparr>)"
  let ?ev = "sample_event\<lparr>path := ''/pet/123/extra''\<rparr>"
  have vr: "truthy (validateRequests ?inst)"
    by (simp add: instance_of_def sample_params_def js_or_def)
  then have flags: "truthy (validateRequests ?inst) \<or> truthy (validateResponses ?inst)" ..
  have body: "body_parses sample_env ?ev"
    by (simp add: body_parses_def sample_env_def sample_event_def is_structured_def)
  have paths: "getProp sample_env (apiSpec ?inst) ''paths'' = Inr (JObj sample_paths)"
    by (simp add: getProp_def lookupKey_def instance_of_def sample_params_def sample_spec_def)
  have verb: "toLowerCase sample_env (httpMethod sample_event) = ''get''"
    by (simp add: sample_event_def toLowerCase_def lower_char_def ascii_def)
  have pc: "patterns_compile sample_env (map fst sample_paths) ''/pet/123/extra''"
    by (auto simp: patterns_compile_def sample_paths_def extra_does_not_match)
  have miss0: "\<not> truthy (operation_at sample_env (JObj sample_paths) ''/pet/123/extra'' ''get'')"
    by (simp add: operation_at_def getProp_def lookupKey_def inherited_def
          object_prototype_names_def sample_paths_def)
  have find: "List.find (selects sample_env (JObj sample_paths) ''/pet/123/extra'' ''get'')
        (map fst sample_paths) = None"
    by (simp add: sample_paths_def selects_def extra_does_not_match)
  have compile: "patterns_compile sample_env (map fst sample_paths) (path ?ev)"
    using pc by simp
  have miss: "\<not> truthy (operation_at sample_env (JObj sample_paths) (path ?ev)
                         (toLowerCase sample_env (httpMethod ?ev)))"
    using miss0 verb by simp
  have none: "\<forall>key \<in> set (map fst sample_paths).
                 \<not> (regex_test sample_env (route_regex key) (path ?ev) = Inr True
                    \<and> truthy (operation_at sample_env (JObj sample_paths) key
                                (toLowerCase sample_env (httpMethod ?ev))))"
    by (simp add: sample_paths_def extra_does_not_match)
  from unresolved_route_is_path_not_found
         [OF flags body paths sample_route_table compile miss none, of False]
  have run: "delivered (install sample_env ?inst False ?ev)
      = Returned (JObj [(''body'', stringify sample_env (JObj [(''message'',
           JStr ''The path /pet/123/extra could not be found with http method get in the API spec'')])),
         (''statusCode'', JNum 400)])
     \<and> calls (install sample_env ?inst False ?ev) = []"
    using verb by (simp add: deliver_def)
  from vr body paths sample_route_table pc miss0 find run show ?thesis by blast
qed



text \<open>
  C9, as stated: a run leaves every field of the instance unchanged. It does not: line 41
  stores the event in \<^verbatim>\<open>this.event\<close> and line 55 stores the resolved operation in
  \<^verbatim>\<open>this.config\<close>. With response validation on, a \<^verbatim>\<open>POST /pet\<close> changes both fields.
\<close>

theorem install_writes_instance_counterexample:
  "this_event (instance_of (sample_params\<lparr>p_validateResponses := JBool True\<rparr>)) = Unset
   \<and> this_event (this_after (install sample_env
         (instance_of (sample_params\<lparr>p_validateResponses := JBool True\<rparr>)) False post_event))
       = Same
   \<and> config (instance_of (sample_params\<lparr>p_validateResponses := JBool True\<rparr>)) = JObj []
   \<and> config (this_after (install sample_env
         (instance_of (sample_params\<lparr>p_validateResponses := JBool True\<rparr>)) False post_event))
       = JObj [(''operationId'', JStr ''addPet'')]"
  by (simp add: run_defs sample_defs del: sample_show.simps)

text \<open>
  C9, amended: provided the code that the run calls (handler, transformers, validators)
  does not itself write to the instance, a run changes no field of the instance other than
  \<^verbatim>\<open>event\<close>, \<^verbatim>\<open>config\<close> and \<^verbatim>\<open>AJVoptions\<close>. A run whose body is JSON text that does not
  parse leaves the instance as it was; every other run leaves \<^verbatim>\<open>this.event\<close> referring to
  its event. \<^verbatim>\<open>this.config\<close> is left as it was when the API spec has no readable \<^verbatim>\<open>paths\<close>,
  when both validations are off, and when the route does not resolve; otherwise it holds
  the resolved operation.
\<close>

theorem instance_after_run:
  assumes "quiet E"
  shows "same_settings this (this_after (install E this callback ev))
         \<and> (\<not> body_parses E ev \<longrightarrow> this_after (install E this callback ev) = this)
         \<and> (body_parses E ev \<longrightarrow> this_event (this_after (install E this callback ev)) = Same)
         \<and> (\<forall>t. body_parses E ev \<and> getProp E (apiSpec this) ''paths'' = Inl t \<longrightarrow>
               config (this_after (install E this callback ev)) = config this)
         \<and> (\<forall>paths. body_parses E ev \<and> getProp E (apiSpec this) ''paths'' = Inr paths \<longrightarrow>
               config (this_after (install E this callback ev))
                 = config_after_route E this paths (path ev) (toLowerCase E (httpMethod ev)))"
proof (cases "body_parses E ev")
  case False
  from try_block_unparsed [OF False, of this] obtain t where
    "try_block E (start this ev) = (Inl t, start this ev)" ..
  then have "this_after (install E this callback ev) = this"
    by (simp add: install_def start_def)
  with False show ?thesis by (simp add: same_settings_def)
next
  case True
  show ?thesis
  proof (cases "getProp E (apiSpec this) ''paths''")
    case (Inl t)
    from try_block_no_paths [OF True Inl]
    have "this_after (install E this callback ev) = this\<lparr>this_event := Same\<rparr>"
      by (simp add: install_def parsed_state_def)
    with True Inl show ?thesis by (simp add: same_settings_def)
  next
    case (Inr paths)
    let ?s = "parsed_state E this ev"
    let ?verb = "toLowerCase E (httpMethod ev)"
    have same: "this_event (st_this ?s) = Same" by (simp add: parsed_state_def)
    obtain r s' where run: "pipeline E paths (path ev) ?verb ?s = (r, s')"
      by (cases "pipeline E paths (path ev) ?verb ?s")
    from pipeline_instance [OF assms same, of paths "path ev" ?verb] run
    have "st_this s' = (this\<lparr>this_event := Same\<rparr>)
              \<lparr>config := config_after_route E (st_this ?s) paths (path ev) ?verb,
               AJVoptions := AJVoptions (st_this s')\<rparr>"
      by (simp add: parsed_state_def)
    then obtain a where a: "st_this s' = (this\<lparr>this_event := Same\<rparr>)
              \<lparr>config := config_after_route E (st_this ?s) paths (path ev) ?verb,
               AJVoptions := a\<rparr>"
      by blast
    have c: "config_after_route E (st_this ?s) paths (path ev) ?verb
                     = config_after_route E this paths (path ev) ?verb"
      by (simp add: config_after_route_def parsed_state_def split: sum.splits)
    have "this_after (install E this callback ev) = st_this s'"
      using try_block_parsed [OF True Inr] run by (simp add: install_def)
    with a c have "this_after (install E this callback ev)
        = this\<lparr>this_event := Same,
               config := config_after_route E this paths (path ev) ?verb,
               AJVoptions := a\<rparr>"
      by simp
    then have "same_settings this (this_after (install E this callback ev))
        \<and> this_event (this_after (install E this callback ev)) = Same
        \<and> config (this_after (install E this callback ev))
            = config_after_route E this paths (path ev) ?verb"
      by (simp add: same_settings_def)
    with True Inr show ?thesis by simp
  qed
qed

theorem instance_after_run_witness:
  "quiet sample_env
   \<and> body_parses sample_env post_event
   \<and> getProp sample_env
        (apiSpec (instance_of (sample_params\<lparr>p_validateResponses := JBool True\<rparr>))) ''paths''
       = Inr (JObj sample_paths)
   \<and> this_event (this_after (install sample_env
         (instance_of (sample_params\<lparr>p_validateResponses := JBool True\<rparr>)) False post_event))
       = Same
   \<and> config (this_after (install sample_env
         (instance_of (sample_params\<lparr>p_validateResponses := JBool True\<rparr>)) False post_event))
       = JObj [(''operationId'', JStr ''addPet'')]"
proof -
  let ?inst = "instance_of (sample_params\<lparr>p_validateResponses := JBool True\<rparr>)"
  have body: "body_parses sample_env post_event"
    by (simp add: body_parses_def sample_defs)
  have paths: "getProp sample_env (apiSpec ?inst) ''paths'' = Inr (JObj sample_paths)"
    by (simp add: getProp_def lookupKey_def instance_of_def sample_params_def sample_spec_def)
  have route: "config_after_route sample_env ?inst (JObj sample_paths) (path post_event)
                 (toLowerCase sample_env (httpMethod post_event))
               = JObj [(''operationId'', JStr ''addPet'')]"
    by (simp add: config_after_route_def run_defs sample_defs)
  from instance_after_run [OF quiet_sample, of ?inst False post_event] body paths route
  have "this_event (this_after (install sample_env ?inst False post_event)) = Same
        \<and> config (this_after (install sample_env ?inst False post_event))
            = JObj [(''operationId'', JStr ''addPet'')]"
    by simp
  with quiet_sample body paths show ?thesis by blast
qed

text \<open>
  C10, as stated: whatever the options, the \<^verbatim>\<open>validateSpec\<close> setting of the constructed
  validator equals \<^verbatim>\<open>true\<close>. It does not for a truthy option that is not \<^verbatim>\<open>true\<close>: with
  \<^verbatim>\<open>validateSpec: 'no'\<close> the expression \<^verbatim>\<open>params.validateSpec || true\<close> yields \<^verbatim>\<open>'no'\<close>.
\<close>

theorem constructor_validateSpec_counterexample:
  "constructor sample_env (sample_params\<lparr>p_validateSpec := JStr ''no''\<rparr>) (JFun ''handler'')
     = Inr (instance_of (sample_params\<lparr>p_validateSpec := JStr ''no''\<rparr>))
   \<and> validateSpec (instance_of (sample_params\<lparr>p_validateSpec := JStr ''no''\<rparr>)) = JStr ''no''
   \<and> JStr ''no'' \<noteq> JBool True"
proof -
  have "constructor sample_env (sample_params\<lparr>p_validateSpec := JStr ''no''\<rparr>) (JFun ''handler'')
          = Inr (instance_of (sample_params\<lparr>p_validateSpec := JStr ''no''\<rparr>))"
    by (rule constructor_sample) (simp_all add: sample_params_def sample_spec_def is_structured_def)
  moreover have "validateSpec (instance_of (sample_params\<lparr>p_validateSpec := JStr ''no''\<rparr>))
                   = JStr ''no''"
    by (simp add: instance_of_def js_or_def)
  ultimately show ?thesis by simp
qed

text \<open>
  C10, amended: whatever options the constructor is given, also with
  \<^verbatim>\<open>validateSpec: false\<close>, the \<^verbatim>\<open>validateSpec\<close> setting of the validator it builds is never
  false or otherwise falsy: it is \<^verbatim>\<open>true\<close> when the option is left out or falsy, and the
  option's own value when that is truthy.
\<close>

theorem constructor_validateSpec:
  assumes "constructor E ps lb = Inr v"
  shows "validateSpec v = (if truthy (p_validateSpec ps) then p_validateSpec ps else JBool True)
         \<and> truthy (validateSpec v) \<and> validateSpec v \<noteq> JBool False"
proof (cases "\<not> truthy (p_apiSpec ps) \<or> \<not> isJson E (p_apiSpec ps)")
  case True
  with assms show ?thesis by (simp add: constructor_def)
next
  case False
  with assms have "validateSpec v = js_or (p_validateSpec ps) (JBool True)"
    by (clarsimp simp: constructor_def)
  then show ?thesis
    by (cases "p_validateSpec ps") (auto simp: js_or_def)
qed

theorem constructor_validateSpec_witness:
  "constructor sample_env (sample_params\<lparr>p_validateSpec := JBool False\<rparr>) (JFun ''handler'')
     = Inr (instance_of (sample_params\<lparr>p_validateSpec := JBool False\<rparr>))
   \<and> validateSpec (instance_of (sample_params\<lparr>p_validateSpec := JBool False\<rparr>)) = JBool True"
proof -
  have c: "constructor sample_env (sample_params\<lparr>p_validateSpec := JBool False\<rparr>)
             (JFun ''handler'')
     = Inr (instance_of (sample_params\<lparr>p_validateSpec := JBool False\<rparr>))"
    by (rule constructor_sample) (simp_all add: sample_params_def sample_spec_def is_structured_def)
  from constructor_validateSpec [OF c] show ?thesis using c by simp
qed
end
